theory Spec2Isabelle
  imports Main "HOL-Library.Sublist"
begin

section \<open>The scaffolding generator \<^verbatim>\<open>bin/index.js\<close>\<close>

text \<open>
  The program is one script: it reads the first command-line argument, refuses an
  existing target, creates two directories, writes four files, runs
  \<^verbatim>\<open>npm install\<close> and \<^verbatim>\<open>npm run build\<close>, and prints a banner.
  Everything it does is an effect, so the embedding is a state-and-exception monad over a
  world that holds the file system and the trace of the calls made so far. A computation
  either returns, or halts the script: by \<^verbatim>\<open>process.exit\<close>, or by an exception that
  nothing catches.

  Conventions of the model.
  \<^item> Strings are byte strings (\<open>string\<close>): the UTF-8 encoding of the JavaScript
    string. The three file templates are ASCII and the project name is only ever
    concatenated into them, so the bytes of every written file are exact.
  \<^item> Paths are POSIX. An absolute, normalised path is the list of its segments below
    the root (\<open>[]\<close> is \<^verbatim>\<open>/\<close>); \<^verbatim>\<open>path.resolve\<close> is modelled on such a base.
  \<^item> The file system is a map from paths to nodes, without links or permission bits.
    A call fails for a structural reason (\<^verbatim>\<open>ENOENT\<close>, \<^verbatim>\<open>ENOTDIR\<close>,
    \<^verbatim>\<open>EEXIST\<close>, \<^verbatim>\<open>EISDIR\<close>), or because the environment's \<open>fault\<close> oracle
    refuses the path (\<^verbatim>\<open>EACCES\<close>, \<^verbatim>\<open>ENOSPC\<close>, ...); a failing call leaves the
    file system as it was. \<^verbatim>\<open>existsSync\<close> sees every entry.
  \<^item> A subprocess is an oracle of the environment: from the command, its working
    directory and the file system it returns an exit status and a new file system.
    The script passes \<^verbatim>\<open>stdio: "inherit"\<close>, so what a subprocess prints is not an
    event of the script.
  \<^item> The trace holds the calls the script makes. What Node itself prints when it ends
    the process on an uncaught exception is not an event.
\<close>

subsection \<open>Paths\<close>

type_synonym path = "string list"

fun split_on :: "char \<Rightarrow> string \<Rightarrow> string list" where
  "split_on c [] = [[]]"
| "split_on c (x # xs) =
     (if x = c then [] # split_on c xs
      else (case split_on c xs of [] \<Rightarrow> [[x]] | y # ys \<Rightarrow> (x # y) # ys))"

text \<open>
  One segment of \<^verbatim>\<open>normalizeString\<close> on an absolute path: empty segments and
  \<^verbatim>\<open>.\<close> are dropped, \<^verbatim>\<open>..\<close> removes the last segment and stays at the root.
\<close>

definition normalize_step :: "path \<Rightarrow> string \<Rightarrow> path" where
  "normalize_step acc seg =
     (if seg = [] \<or> seg = ''.'' then acc
      else if seg = ''..'' then butlast acc
      else acc @ [seg])"

text \<open>
  \<^verbatim>\<open>path.resolve(base, s)\<close> for an absolute, normalised \<open>base\<close>: an argument that
  starts with a slash restarts from the root, an empty one is skipped.
\<close>

definition resolve :: "path \<Rightarrow> string \<Rightarrow> path" where
  "resolve base s =
     foldl normalize_step
       (case s of [] \<Rightarrow> base | c # _ \<Rightarrow> if c = CHR ''/'' then [] else base)
       (split_on (CHR ''/'') s)"

subsection \<open>The world: file system, trace, environment\<close>

datatype node = File string | Dir

type_synonym filesystem = "path \<Rightarrow> node option"

text \<open>The root directory always exists.\<close>

definition node_at :: "filesystem \<Rightarrow> path \<Rightarrow> node option" where
  "node_at f p = (if p = [] then Some Dir else f p)"

datatype errno = ENOENT | ENOTDIR | EEXIST | EISDIR | EACCES | ENOSPC | EIO

datatype child_status = Exited nat | Signalled | SpawnError

text \<open>
  One event per call of an effectful primitive, with what the call returned:
  \<^verbatim>\<open>existsSync\<close>, \<^verbatim>\<open>mkdirSync\<close>, \<^verbatim>\<open>writeFileSync\<close> (path, data, error if any),
  \<^verbatim>\<open>execSync\<close> (command, working directory, how the child ended),
  \<^verbatim>\<open>console.log\<close> and \<^verbatim>\<open>console.error\<close> (the message).
\<close>

datatype event =
    Exists path bool
  | Mkdir path "errno option"
  | WriteFile path string "errno option"
  | Exec string path child_status
  | Log string
  | Error string

record world =
  files :: filesystem
  trace :: "event list"

record env =
  cwd :: path
  fault :: "path \<Rightarrow> errno option"
  spawn :: "string \<Rightarrow> path \<Rightarrow> filesystem \<Rightarrow> child_status \<times> filesystem"

datatype exn = FsError errno path | ChildError string child_status

datatype halt = Exit nat | Threw exn

type_synonym 'a io = "world \<Rightarrow> (halt + 'a) \<times> world"

definition return :: "'a \<Rightarrow> 'a io" where
  "return a w = (Inr a, w)"

definition bind :: "'a io \<Rightarrow> ('a \<Rightarrow> 'b io) \<Rightarrow> 'b io" where
  "bind m k w = (case m w of (Inl h, w') \<Rightarrow> (Inl h, w') | (Inr a, w') \<Rightarrow> k a w')"

fun block :: "unit io list \<Rightarrow> unit io" where
  "block [] = return ()"
| "block (m # ms) = bind m (\<lambda>_. block ms)"

definition if_then :: "bool \<Rightarrow> unit io \<Rightarrow> unit io" where
  "if_then b m = (if b then m else return ())"

definition emit_event :: "event \<Rightarrow> world \<Rightarrow> world" where
  "emit_event ev w = w\<lparr>trace := trace w @ [ev]\<rparr>"

subsection \<open>The primitives of Node the script calls\<close>

definition console_log :: "string \<Rightarrow> unit io" where
  "console_log s w = (Inr (), emit_event (Log s) w)"

definition console_error :: "string \<Rightarrow> unit io" where
  "console_error s w = (Inr (), emit_event (Error s) w)"

definition process_exit :: "nat \<Rightarrow> unit io" where
  "process_exit c w = (Inl (Exit c), w)"

definition existsSync :: "path \<Rightarrow> bool io" where
  "existsSync p w =
     (let b = (node_at (files w) p \<noteq> None) in (Inr b, emit_event (Exists p b) w))"

text \<open>\<^verbatim>\<open>mkdirSync(p)\<close> without \<^verbatim>\<open>recursive\<close>: the parent must be a directory.\<close>

definition mkdir_error :: "env \<Rightarrow> filesystem \<Rightarrow> path \<Rightarrow> errno option" where
  "mkdir_error e f p =
     (if p = [] then Some EEXIST
      else case node_at f (butlast p) of
             None \<Rightarrow> Some ENOENT
           | Some (File _) \<Rightarrow> Some ENOTDIR
           | Some Dir \<Rightarrow> (if f p \<noteq> None then Some EEXIST else fault e p))"

definition mkdirSync :: "env \<Rightarrow> path \<Rightarrow> unit io" where
  "mkdirSync e p w =
     (let r = mkdir_error e (files w) p; w' = emit_event (Mkdir p r) w in
      case r of
        Some err \<Rightarrow> (Inl (Threw (FsError err p)), w')
      | None \<Rightarrow> (Inr (), w'\<lparr>files := (files w)(p \<mapsto> Dir)\<rparr>))"

text \<open>\<^verbatim>\<open>writeFileSync(p, data)\<close>: creates the file or replaces its content.\<close>

definition write_error :: "env \<Rightarrow> filesystem \<Rightarrow> path \<Rightarrow> errno option" where
  "write_error e f p =
     (if p = [] then Some EISDIR
      else case node_at f (butlast p) of
             None \<Rightarrow> Some ENOENT
           | Some (File _) \<Rightarrow> Some ENOTDIR
           | Some Dir \<Rightarrow> (if f p = Some Dir then Some EISDIR else fault e p))"

definition writeFileSync :: "env \<Rightarrow> path \<Rightarrow> string \<Rightarrow> unit io" where
  "writeFileSync e p data w =
     (let r = write_error e (files w) p; w' = emit_event (WriteFile p data r) w in
      case r of
        Some err \<Rightarrow> (Inl (Threw (FsError err p)), w')
      | None \<Rightarrow> (Inr (), w'\<lparr>files := (files w)(p \<mapsto> File data)\<rparr>))"

text \<open>
  \<^verbatim>\<open>execSync(cmd, {cwd, stdio: "inherit"})\<close> blocks until the child has ended and
  throws unless the child exited with status 0.
\<close>

definition execSync :: "env \<Rightarrow> string \<Rightarrow> path \<Rightarrow> unit io" where
  "execSync e cmd dir w =
     (case spawn e cmd dir (files w) of
        (st, f') \<Rightarrow>
          (let w' = emit_event (Exec cmd dir st) (w\<lparr>files := f'\<rparr>) in
           if st = Exited 0 then (Inr (), w') else (Inl (Threw (ChildError cmd st)), w')))"

text \<open>
  \<^verbatim>\<open>String.prototype.trim\<close> on a string whose two ends are ASCII: the white space and
  line terminators of ASCII are removed from both ends. The script trims its three
  templates, which begin and end with their own fixed text.
\<close>

definition is_space :: "char \<Rightarrow> bool" where
  "is_space c = (c \<in> set [CHR 0x09, CHR 0x0A, CHR 0x0B, CHR 0x0C, CHR 0x0D, CHR 0x20])"

definition trim :: "string \<Rightarrow> string" where
  "trim s = rev (dropWhile is_space (rev (dropWhile is_space s)))"

subsection \<open>\<^verbatim>\<open>JSON.stringify\<close>\<close>

text \<open>
  The manifest is an object of strings and objects; property order is insertion order.
\<close>

datatype json = JString string | JObject "(string \<times> json) list"

definition hex_digit :: "nat \<Rightarrow> char" where
  "hex_digit d = ''0123456789abcdef'' ! d"

text \<open>
  \<^verbatim>\<open>QuoteJSONString\<close>: the seven short escapes, \<^verbatim>\<open>\u00XX\<close> for the other control
  characters, every other byte as it is. (A lone surrogate, which ECMAScript also
  escapes, has no UTF-8 encoding, and cannot come from a command-line argument.)
\<close>

definition quote_char :: "char \<Rightarrow> string" where
  "quote_char c =
     (if c = CHR 0x08 then [CHR 0x5C, CHR ''b'']
      else if c = CHR 0x09 then [CHR 0x5C, CHR ''t'']
      else if c = CHR 0x0A then [CHR 0x5C, CHR ''n'']
      else if c = CHR 0x0C then [CHR 0x5C, CHR ''f'']
      else if c = CHR 0x0D then [CHR 0x5C, CHR ''r'']
      else if c = CHR 0x22 then [CHR 0x5C, CHR 0x22]
      else if c = CHR 0x5C then [CHR 0x5C, CHR 0x5C]
      else if (of_char c :: nat) < 0x20 then
        [CHR 0x5C, CHR ''u'', CHR ''0'', CHR ''0'',
         hex_digit (of_char c div 16), hex_digit (of_char c mod 16)]
      else [c])"

definition QuoteJSONString :: "string \<Rightarrow> string" where
  "QuoteJSONString s = [CHR 0x22] @ concat (map quote_char s) @ [CHR 0x22]"

fun join :: "string \<Rightarrow> string list \<Rightarrow> string" where
  "join sep [] = []"
| "join sep [x] = x"
| "join sep (x # y # ys) = x @ sep @ join sep (y # ys)"

text \<open>
  \<^verbatim>\<open>SerializeJSONProperty\<close> and \<^verbatim>\<open>SerializeJSONObject\<close> with the gap \<open>gap\<close> and
  the current indentation \<open>ind\<close>.
\<close>

fun serialize :: "string \<Rightarrow> string \<Rightarrow> json \<Rightarrow> string"
  and serialize_members :: "string \<Rightarrow> string \<Rightarrow> (string \<times> json) list \<Rightarrow> string list" where
  "serialize gap ind (JString s) = QuoteJSONString s"
| "serialize gap ind (JObject kvs) =
     (let stepback = ind; indent = ind @ gap;
          partial = serialize_members gap indent kvs in
      if partial = [] then ''{}''
      else if gap = [] then ''{'' @ join '','' partial @ ''}''
      else ''{\<newline>'' @ indent @ join ('',\<newline>'' @ indent) partial @
           ''\<newline>'' @ stepback @ ''}'')"
| "serialize_members gap ind [] = []"
| "serialize_members gap ind ((k, v) # kvs) =
     (QuoteJSONString k @ '':'' @ (if gap = [] then [] else '' '') @ serialize gap ind v)
       # serialize_members gap ind kvs"

text \<open>\<^verbatim>\<open>JSON.stringify(value, null, space)\<close> for a number \<open>space\<close>.\<close>

definition JSON_stringify :: "json \<Rightarrow> nat \<Rightarrow> string" where
  "JSON_stringify v space = serialize (replicate (min space 10) (CHR '' '')) [] v"

subsection \<open>The templates\<close>

definition indexHtml :: "string \<Rightarrow> string" where
  \<open>indexHtml projectName =
     ''\<newline>'' @
     ''<!DOCTYPE html>\<newline>'' @
     ''<html lang="en">\<newline>'' @
     ''<head>\<newline>'' @
     ''  <meta charset="UTF-8">\<newline>'' @
     ''  <meta name="viewport" content="width=device-width, initial-scale=1.0">\<newline>'' @
     ''  <title>'' @ projectName @ ''</title>\<newline>'' @
     ''\<newline>'' @
     ''  <!-- importmap to map "nodality" to node_modules path -->\<newline>'' @
     ''  <script type="importmap">\<newline>'' @
     ''  {\<newline>'' @
     ''    "imports": {\<newline>'' @
     ''      "nodality": "/node_modules/nodality/dist/index.esm.js"\<newline>'' @
     ''    }\<newline>'' @
     ''  }\<newline>'' @
     ''  </script>\<newline>'' @
     ''</head>\<newline>'' @
     ''<body>\<newline>'' @
     ''  <div id="mount"></div>\<newline>'' @
     ''\<newline>'' @
     ''  <!-- User app -->\<newline>'' @
     ''  <script type="module" src="src/app.js"></script>\<newline>'' @
     ''</body>\<newline>'' @
     ''</html>\<newline>'' @
     ''  ''\<close>

definition appJs :: "string" where
  \<open>appJs =
     ''\<newline>'' @
     ''import { Des } from "nodality";           \<newline>'' @
     ''\<newline>'' @
     ''const elements = [\<newline>'' @
     ''  { type: "h1", text: "Hello" }\<newline>'' @
     ''];\<newline>'' @
     ''\<newline>'' @
     ''const nodes = [\<newline>'' @
     ''  { op: "blast" }\<newline>'' @
     ''];\<newline>'' @
     ''\<newline>'' @
     ''new Des()\<newline>'' @
     ''  .nodes(nodes)\<newline>'' @
     ''  .add(elements)\<newline>'' @
     ''  .set({\<newline>'' @
     ''    mount: "#mount",\<newline>'' @
     ''    code: true,\<newline>'' @
     ''  });\<newline>'' @
     ''  ''\<close>

definition webpackConfig :: "string" where
  \<open>webpackConfig =
     ''\<newline>'' @
     ''import path from "path";\<newline>'' @
     ''import { fileURLToPath } from "url";\<newline>'' @
     ''\<newline>'' @
     ''const __filename = fileURLToPath(import.meta.url);\<newline>'' @
     ''const __dirname = path.dirname(__filename);\<newline>'' @
     ''\<newline>'' @
     ''export default {\<newline>'' @
     ''  mode: "production",\<newline>'' @
     ''  entry: "nodality",               // bundle Nodality only\<newline>'' @
     ''  output: {\<newline>'' @
     ''    path: path.resolve(__dirname, "dist"),\<newline>'' @
     ''    filename: "lib.bundle.js",\<newline>'' @
     ''    library: { type: "module" },   // ESM output\<newline>'' @
     ''    environment: { module: true },\<newline>'' @
     ''    clean: true,\<newline>'' @
     ''    publicPath: "/",\<newline>'' @
     ''  },\<newline>'' @
     ''  experiments: { outputModule: true },\<newline>'' @
     ''  module: {\<newline>'' @
     ''    rules: [\<newline>'' @
     ''      {\<newline>'' @
     ''        test: /'' @ [CHR 0x5C] @ ''.m?js$/,\<newline>'' @
     ''        exclude: /node_modules/,\<newline>'' @
     ''        use: { loader: "babel-loader", options: { presets: ["@babel/preset-env"] } },\<newline>'' @
     ''      },\<newline>'' @
     ''    ],\<newline>'' @
     ''  },\<newline>'' @
     ''};\<newline>'' @
     ''  ''\<close>


definition pkg :: "string \<Rightarrow> json" where
  "pkg projectName = JObject
     [(''name'', JString projectName),
      (''version'', JString ''1.0.0''),
      (''type'', JString ''module''),
      (''scripts'', JObject
         [(''build'', JString ''webpack --config webpack.config.js''),
          (''watch'', JString ''webpack --watch --config webpack.config.js''),
          (''start'', JString ''live-server . --port=4000 --watch=dist,src''),
          (''dev'', JString ''npm-run-all --parallel watch start'')]),
      (''dependencies'', JObject
         [(''nodality'', JString ''latest'')]),
      (''devDependencies'', JObject
         [(''@babel/core'', JString ''^7.28.4''),
          (''@babel/preset-env'', JString ''^7.28.3''),
          (''babel-loader'', JString ''^9.2.1''),
          (''live-server'', JString ''^1.2.2''),
          (''npm-run-all'', JString ''^4.1.5''),
          (''serve'', JString ''^14.0.0''),
          (''webpack'', JString ''^5.101.3''),
          (''webpack-cli'', JString ''^5.1.4''),
          (''webpack-dev-server'', JString ''^5.2.2'')])]"

text \<open>
  The banner: \<^verbatim>\<open>console.log\<close> puts its second argument in place of \<^verbatim>\<open>%s\<close>. The
  four characters after the exclamation mark are those of the source file.
\<close>

definition banner :: "string \<Rightarrow> string" where
  \<open>banner projectName =
     (let bold = [CHR 0x1B] @ ''[1m'';
          color1abc9c = [CHR 0x1B] @ ''[38;5;37m'';
          reset = [CHR 0x1B] @ ''[0m''
      in ''\<newline>'' @ color1abc9c @ bold @
         (''Project "'' @ projectName @ ''" is ready! '' @
           [CHR 0xC3, CHR 0xB0, CHR 0xC5, CHR 0xB8, CHR 0xC5, CHR 0xBD, CHR 0xE2, CHR 0x80, CHR 0xB0]) @
         reset @ ''\<newline>'')\<close>

subsection \<open>The script\<close>

definition createProject :: "env \<Rightarrow> string \<Rightarrow> unit io" where
  "createProject e projectName =
     (let projectPath = resolve (cwd e) projectName;
          srcPath = resolve projectPath ''src''
      in
      bind (existsSync projectPath) (\<lambda>found. block
        [if_then found (block
           [console_error (''Folder '' @ projectName @ '' already exists.''),
            process_exit 1]),
         mkdirSync e projectPath,
         mkdirSync e srcPath,
         writeFileSync e (resolve projectPath ''index.html'') (trim (indexHtml projectName)),
         writeFileSync e (resolve srcPath ''app.js'') (trim appJs),
         writeFileSync e (resolve projectPath ''webpack.config.js'') (trim webpackConfig),
         writeFileSync e (resolve projectPath ''package.json'') (JSON_stringify (pkg projectName) 2),
         console_log ''Installing dependencies...'',
         execSync e ''npm install'' projectPath,
         console_log ''Building Nodality bundle...'',
         execSync e ''npm run build'' projectPath,
         console_log (banner projectName),
         console_log ''\<newline>Usage:\<newline>'',
         console_log (''  cd '' @ projectName),
         console_log ''  npm run build      # Rebuild library bundle'',
         console_log ''  npm run dev        # Start dev server with live reload'',
         console_log ''  npm start          # Serve project without watch'']))"

text \<open>
  The top level. \<open>args\<close> is \<^verbatim>\<open>process.argv.slice(2)\<close>; \<^verbatim>\<open>args[0]\<close> is
  \<^verbatim>\<open>undefined\<close> on the empty list, and both \<^verbatim>\<open>undefined\<close> and the empty string are
  falsy. The call \<^verbatim>\<open>createProject(args[0])\<close> is reached with a string only: on
  \<^verbatim>\<open>undefined\<close> the process has exited before.
\<close>

definition falsy :: "string option \<Rightarrow> bool" where
  "falsy a = (case a of None \<Rightarrow> True | Some s \<Rightarrow> s = [])"

definition first_arg :: "string list \<Rightarrow> string option" where
  "first_arg args = (case args of [] \<Rightarrow> None | a # _ \<Rightarrow> Some a)"

definition main :: "env \<Rightarrow> string list \<Rightarrow> unit io" where
  "main e args =
     block
       [if_then (falsy (first_arg args)) (block
          [console_error ''Usage: npm create nodality <project-name>'',
           process_exit 1]),
        (case first_arg args of
           Some projectName \<Rightarrow> createProject e projectName
         | None \<Rightarrow> return ())]"

text \<open>
  The exit code of the process: the argument of \<^verbatim>\<open>process.exit\<close>, 1 after an uncaught
  exception, 0 when the script runs to its end.
\<close>

definition exit_code :: "(halt + unit) \<Rightarrow> nat" where
  "exit_code r = (case r of Inr _ \<Rightarrow> 0 | Inl (Exit c) \<Rightarrow> c | Inl (Threw _) \<Rightarrow> 1)"

definition start :: "filesystem \<Rightarrow> world" where
  "start f = \<lparr>files = f, trace = []\<rparr>"

definition run :: "env \<Rightarrow> string list \<Rightarrow> filesystem \<Rightarrow> nat \<times> world" where
  "run e args f = (case main e args (start f) of (r, w) \<Rightarrow> (exit_code r, w))"

section \<open>Vocabulary of the properties\<close>

subsection \<open>The two phases of \<open>createProject\<close> after the existence check\<close>

text \<open>
  The statements of \<open>createProject\<close> that create directories and files, and the
  statements that follow them, with the paths already resolved below the target \<open>p\<close>.
  Lemma \<open>createProject_phases\<close> shows that \<open>createProject\<close> is the existence check
  followed by these two lists.
\<close>

definition emission :: "env \<Rightarrow> path \<Rightarrow> string \<Rightarrow> unit io list" where
  "emission e p n =
     [mkdirSync e p,
      mkdirSync e (p @ [''src'']),
      writeFileSync e (p @ [''index.html'']) (trim (indexHtml n)),
      writeFileSync e (p @ [''src'', ''app.js'']) (trim appJs),
      writeFileSync e (p @ [''webpack.config.js'']) (trim webpackConfig),
      writeFileSync e (p @ [''package.json'']) (JSON_stringify (pkg n) 2)]"

definition building :: "env \<Rightarrow> path \<Rightarrow> string \<Rightarrow> unit io list" where
  "building e p n =
     [console_log ''Installing dependencies...'',
      execSync e ''npm install'' p,
      console_log ''Building Nodality bundle...'',
      execSync e ''npm run build'' p,
      console_log (banner n),
      console_log ''\<newline>Usage:\<newline>'',
      console_log (''  cd '' @ n),
      console_log ''  npm run build      # Rebuild library bundle'',
      console_log ''  npm run dev        # Start dev server with live reload'',
      console_log ''  npm start          # Serve project without watch'']"

text \<open>The file system after a complete emission, and the events of a complete emission.\<close>

definition scaffolded :: "filesystem \<Rightarrow> path \<Rightarrow> string \<Rightarrow> filesystem" where
  "scaffolded f p n =
     f(p \<mapsto> Dir,
       p @ [''src''] \<mapsto> Dir,
       p @ [''index.html''] \<mapsto> File (trim (indexHtml n)),
       p @ [''src'', ''app.js''] \<mapsto> File (trim appJs),
       p @ [''webpack.config.js''] \<mapsto> File (trim webpackConfig),
       p @ [''package.json''] \<mapsto> File (JSON_stringify (pkg n) 2))"

definition emitted :: "path \<Rightarrow> string \<Rightarrow> event list" where
  "emitted p n =
     [Mkdir p None,
      Mkdir (p @ [''src'']) None,
      WriteFile (p @ [''index.html'']) (trim (indexHtml n)) None,
      WriteFile (p @ [''src'', ''app.js'']) (trim appJs) None,
      WriteFile (p @ [''webpack.config.js'']) (trim webpackConfig) None,
      WriteFile (p @ [''package.json'']) (JSON_stringify (pkg n) 2) None]"

text \<open>None of the six creations fails, each tried on what the earlier ones left.\<close>

definition emission_succeeds :: "env \<Rightarrow> filesystem \<Rightarrow> path \<Rightarrow> string \<Rightarrow> bool" where
  "emission_succeeds e f p n =
     (let f1 = f(p \<mapsto> Dir);
          f2 = f1(p @ [''src''] \<mapsto> Dir);
          f3 = f2(p @ [''index.html''] \<mapsto> File (trim (indexHtml n)));
          f4 = f3(p @ [''src'', ''app.js''] \<mapsto> File (trim appJs));
          f5 = f4(p @ [''webpack.config.js''] \<mapsto> File (trim webpackConfig))
      in mkdir_error e f p = None \<and>
         mkdir_error e f1 (p @ [''src'']) = None \<and>
         write_error e f2 (p @ [''index.html'']) = None \<and>
         write_error e f3 (p @ [''src'', ''app.js'']) = None \<and>
         write_error e f4 (p @ [''webpack.config.js'']) = None \<and>
         write_error e f5 (p @ [''package.json'']) = None)"

text \<open>The events after a complete emission, by how the run ends.\<close>

definition install_failed :: "path \<Rightarrow> child_status \<Rightarrow> event list" where
  "install_failed p st = [Log ''Installing dependencies...'', Exec ''npm install'' p st]"

definition build_failed :: "path \<Rightarrow> child_status \<Rightarrow> event list" where
  "build_failed p st =
     install_failed p (Exited 0) @
     [Log ''Building Nodality bundle...'', Exec ''npm run build'' p st]"

definition report :: "string \<Rightarrow> event list" where
  "report n =
     [Log (banner n), Log ''\<newline>Usage:\<newline>'', Log (''  cd '' @ n),
      Log ''  npm run build      # Rebuild library bundle'',
      Log ''  npm run dev        # Start dev server with live reload'',
      Log ''  npm start          # Serve project without watch'']"

subsection \<open>Conditions on the environment\<close>

text \<open>
  A file system is a tree: whatever exists below the root lies in a directory. The
  operating system guarantees it; the map that models the file system does not.
\<close>

definition well_formed :: "filesystem \<Rightarrow> bool" where
  "well_formed f = (\<forall>q. q \<noteq> [] \<longrightarrow> f q \<noteq> None \<longrightarrow> node_at f (butlast q) = Some Dir)"

text \<open>The operating system refuses none of the six paths the script creates below \<open>p\<close>.\<close>

definition no_fault :: "env \<Rightarrow> path \<Rightarrow> bool" where
  "no_fault e p = list_all (\<lambda>q. fault e q = None)
     [p, p @ [''src''], p @ [''index.html''], p @ [''src'', ''app.js''],
      p @ [''webpack.config.js''], p @ [''package.json'']]"

text \<open>No subprocess removes the entry at \<open>p\<close>.\<close>

definition keeps :: "env \<Rightarrow> path \<Rightarrow> bool" where
  "keeps e p =
     (\<forall>cmd d g. node_at g p \<noteq> None \<longrightarrow> node_at (snd (spawn e cmd d g)) p \<noteq> None)"

subsection \<open>Reading a trace\<close>

definition is_exec :: "event \<Rightarrow> bool" where
  "is_exec ev = (case ev of Exec _ _ _ \<Rightarrow> True | _ \<Rightarrow> False)"

definition is_creation :: "event \<Rightarrow> bool" where
  "is_creation ev = (case ev of Mkdir _ _ \<Rightarrow> True | WriteFile _ _ _ \<Rightarrow> True | _ \<Rightarrow> False)"

definition is_write :: "event \<Rightarrow> bool" where
  "is_write ev = (case ev of WriteFile _ _ _ \<Rightarrow> True | _ \<Rightarrow> False)"

definition runs :: "string \<Rightarrow> event \<Rightarrow> bool" where
  "runs cmd ev = (case ev of Exec c _ _ \<Rightarrow> c = cmd | _ \<Rightarrow> False)"

text \<open>The path and the data of a \<open>writeFileSync\<close> call.\<close>

definition written_path :: "event \<Rightarrow> path" where
  "written_path ev = (case ev of WriteFile p _ _ \<Rightarrow> p | _ \<Rightarrow> [])"

definition written_data :: "event \<Rightarrow> string" where
  "written_data ev = (case ev of WriteFile _ d _ \<Rightarrow> d | _ \<Rightarrow> [])"

text \<open>The content the run last wrote at \<open>q\<close> with success, if it wrote there.\<close>

fun written :: "event list \<Rightarrow> path \<Rightarrow> string option" where
  "written [] q = None"
| "written (ev # evs) q =
     (case written evs q of
        Some d \<Rightarrow> Some d
      | None \<Rightarrow> (case ev of
                   WriteFile p d r \<Rightarrow> if p = q \<and> r = None then Some d else None
                 | _ \<Rightarrow> None))"

text \<open>
  The calls of a trace that touch the file system or start a subprocess, without their
  results, and the one pipeline of such calls the script has for a target \<open>p\<close>.
\<close>

datatype call = CExists path | CMkdir path | CWrite path string | CExec string path

fun call_of :: "event \<Rightarrow> call option" where
  "call_of (Exists p _) = Some (CExists p)"
| "call_of (Mkdir p _) = Some (CMkdir p)"
| "call_of (WriteFile p d _) = Some (CWrite p d)"
| "call_of (Exec c p _) = Some (CExec c p)"
| "call_of (Log _) = None"
| "call_of (Error _) = None"

definition calls :: "event list \<Rightarrow> call list" where
  "calls tr = List.map_filter call_of tr"

definition pipeline :: "path \<Rightarrow> string \<Rightarrow> call list" where
  "pipeline p n =
     [CExists p,
      CMkdir p,
      CMkdir (p @ [''src'']),
      CWrite (p @ [''index.html'']) (trim (indexHtml n)),
      CWrite (p @ [''src'', ''app.js'']) (trim appJs),
      CWrite (p @ [''webpack.config.js'']) (trim webpackConfig),
      CWrite (p @ [''package.json'']) (JSON_stringify (pkg n) 2),
      CExec ''npm install'' p,
      CExec ''npm run build'' p]"

definition is_write_call :: "call \<Rightarrow> bool" where
  "is_write_call c = (case c of CWrite _ _ \<Rightarrow> True | _ \<Rightarrow> False)"

text \<open>The stage of the pipeline a call belongs to.\<close>

fun stage :: "call \<Rightarrow> nat" where
  "stage (CExists _) = 0"
| "stage (CMkdir _) = 1"
| "stage (CWrite _ _) = 1"
| "stage (CExec c _) = (if c = ''npm install'' then 2 else 3)"

subsection \<open>Reading the manifest back\<close>

text \<open>
  A parser for the JSON texts whose values are strings and objects, to state what a
  reader of \<^verbatim>\<open>package.json\<close> finds. It follows the JSON grammar for white space,
  objects and strings with their escapes; on any other text it answers \<open>None\<close>, and so
  on a \<^verbatim>\<open>\u\<close> escape of a character outside ASCII, which a byte string cannot hold.
  The recursion on nested values is bounded by fuel; \<open>JSON_parse\<close> gives it the length
  of the text, more than any nesting in it.
\<close>

definition hex_value :: "char \<Rightarrow> nat option" where
  "hex_value c =
     (let v = (of_char c :: nat) in
      if 0x30 \<le> v \<and> v \<le> 0x39 then Some (v - 0x30)
      else if 0x61 \<le> v \<and> v \<le> 0x66 then Some (v - 0x61 + 10)
      else if 0x41 \<le> v \<and> v \<le> 0x46 then Some (v - 0x41 + 10)
      else None)"

definition unescape :: "char \<Rightarrow> char option" where
  "unescape c =
     (if c = CHR 0x22 then Some (CHR 0x22)
      else if c = CHR 0x5C then Some (CHR 0x5C)
      else if c = CHR ''/'' then Some (CHR ''/'')
      else if c = CHR ''b'' then Some (CHR 0x08)
      else if c = CHR ''f'' then Some (CHR 0x0C)
      else if c = CHR ''n'' then Some (CHR 0x0A)
      else if c = CHR ''r'' then Some (CHR 0x0D)
      else if c = CHR ''t'' then Some (CHR 0x09)
      else None)"

definition cons_char :: "char \<Rightarrow> (string \<times> string) option \<Rightarrow> (string \<times> string) option" where
  "cons_char c r = (case r of None \<Rightarrow> None | Some (s, rest) \<Rightarrow> Some (c # s, rest))"

text \<open>The characters of a string after its opening quote: the string and what follows it.\<close>

fun parse_chars :: "string \<Rightarrow> (string \<times> string) option" where
  "parse_chars [] = None"
| "parse_chars (c # cs) =
     (if c = CHR 0x22 then Some ([], cs)
      else if c = CHR 0x5C then
        (case cs of
           [] \<Rightarrow> None
         | d # ds \<Rightarrow>
             if d = CHR ''u'' then
               (case ds of
                  h1 # h2 # h3 # h4 # r \<Rightarrow>
                    (case (hex_value h1, hex_value h2, hex_value h3, hex_value h4) of
                       (Some a, Some b, Some c', Some d') \<Rightarrow>
                         (let v = ((a * 16 + b) * 16 + c') * 16 + d' in
                          if v < 0x80 then cons_char (char_of v) (parse_chars r) else None)
                     | _ \<Rightarrow> None)
                | _ \<Rightarrow> None)
             else (case unescape d of
                     None \<Rightarrow> None
                   | Some x \<Rightarrow> cons_char x (parse_chars ds)))
      else if (of_char c :: nat) < 0x20 then None
      else cons_char c (parse_chars cs))"

definition skip_ws :: "string \<Rightarrow> string" where
  "skip_ws s = dropWhile (\<lambda>c. c \<in> set [CHR 0x20, CHR 0x09, CHR 0x0A, CHR 0x0D]) s"

fun parse_value :: "nat \<Rightarrow> string \<Rightarrow> (json \<times> string) option"
  and parse_members :: "nat \<Rightarrow> string \<Rightarrow> ((string \<times> json) list \<times> string) option" where
  "parse_value 0 s = None"
| "parse_value (Suc k) s =
     (case skip_ws s of
        [] \<Rightarrow> None
      | c # cs \<Rightarrow>
          if c = CHR 0x22 then
            (case parse_chars cs of None \<Rightarrow> None | Some (t, r) \<Rightarrow> Some (JString t, r))
          else if c = CHR ''{'' then
            (case skip_ws cs of
               [] \<Rightarrow> None
             | d # ds \<Rightarrow>
                 if d = CHR ''}'' then Some (JObject [], ds)
                 else (case parse_members k (d # ds) of
                         None \<Rightarrow> None
                       | Some (kvs, r) \<Rightarrow> Some (JObject kvs, r)))
          else None)"
| "parse_members 0 s = None"
| "parse_members (Suc k) s =
     (case skip_ws s of
        [] \<Rightarrow> None
      | c # cs \<Rightarrow>
          if c \<noteq> CHR 0x22 then None
          else (case parse_chars cs of
                  None \<Rightarrow> None
                | Some (key, r) \<Rightarrow>
                    (case skip_ws r of
                       [] \<Rightarrow> None
                     | c2 # r2 \<Rightarrow>
                         if c2 \<noteq> CHR '':'' then None
                         else (case parse_value k r2 of
                                 None \<Rightarrow> None
                               | Some (v, r3) \<Rightarrow>
                                   (case skip_ws r3 of
                                      [] \<Rightarrow> None
                                    | c4 # r4 \<Rightarrow>
                                        if c4 = CHR ''}'' then Some ([(key, v)], r4)
                                        else if c4 = CHR '','' then
                                          (case parse_members k r4 of
                                             None \<Rightarrow> None
                                           | Some (kvs, r5) \<Rightarrow> Some ((key, v) # kvs, r5))
                                        else None)))))"

definition JSON_parse :: "string \<Rightarrow> json option" where
  "JSON_parse s =
     (case parse_value (length s) s of
        None \<Rightarrow> None
      | Some (v, r) \<Rightarrow> if skip_ws r = [] then Some v else None)"

text \<open>The properties of an object, and the properties of the object under a key.\<close>

fun entries :: "json \<Rightarrow> (string \<times> json) list" where
  "entries (JObject kvs) = kvs"
| "entries (JString _) = []"

definition member :: "string \<Rightarrow> json \<Rightarrow> json option" where
  "member k j = map_of (entries j) k"

definition object_at :: "string \<Rightarrow> json \<Rightarrow> (string \<times> json) list" where
  "object_at k j = (case member k j of None \<Rightarrow> [] | Some v \<Rightarrow> entries v)"

text \<open>A caret range: a string value that starts with \<^verbatim>\<open>^\<close>.\<close>

fun caret_range :: "json \<Rightarrow> bool" where
  "caret_range (JString (c # _)) = (c = CHR ''^'')"
| "caret_range _ = False"

subsection \<open>Reading the title of the document\<close>

text \<open>
  What an HTML parser finds as the text of the title element of \<^verbatim>\<open>index.html\<close>. The
  content of a title element is text, not markup: it runs up to the end tag of the
  element, which is \<^verbatim>\<open></title\<close> in either case of the letters, followed by white
  space, \<^verbatim>\<open>/\<close> or \<^verbatim>\<open>>\<close>; no other \<^verbatim>\<open><\<close> ends it. In this text the parser
  replaces character references, carriage returns and the character NUL: the reader
  below does not, and answers \<open>None\<close> when it meets \<^verbatim>\<open>&\<close>, a carriage return or NUL
  there, so that a text it answers is the text of the element as it stands in the
  document. The element is looked for at the first \<^verbatim>\<open><title>\<close> of the document, where
  the template has it, after a head without comments.
\<close>

fun matches :: "string list \<Rightarrow> string \<Rightarrow> bool" where
  "matches [] s = True"
| "matches (cs # ps) [] = False"
| "matches (cs # ps) (c # s) = (c \<in> set cs \<and> matches ps s)"

definition title_end_tag :: "string \<Rightarrow> bool" where
  "title_end_tag s =
     matches [''<'', ''/'', ''tT'', ''iI'', ''tT'', ''lL'', ''eE'',
              [CHR 0x09, CHR 0x0A, CHR 0x0C, CHR 0x20, CHR ''/'', CHR ''>'']] s"

definition replaced :: "char \<Rightarrow> bool" where
  "replaced c = (c \<in> set [CHR ''&'', CHR 0x0D, CHR 0x00])"

fun title_text :: "string \<Rightarrow> string option" where
  "title_text [] = Some []"
| "title_text (c # s) =
     (if title_end_tag (c # s) then Some []
      else if replaced c then None
      else map_option (Cons c) (title_text s))"

fun title_element :: "string \<Rightarrow> string option" where
  "title_element [] = None"
| "title_element (c # s) =
     (if prefix ''<title>'' (c # s) then title_text (drop 7 (c # s)) else title_element s)"

text \<open>
  A name the parser reads as it is written: none of its characters is \<^verbatim>\<open><\<close>, \<^verbatim>\<open>&\<close>, a
  carriage return or NUL.
\<close>

definition plain_text :: "string \<Rightarrow> bool" where
  "plain_text s = list_all (\<lambda>c. c \<noteq> CHR ''<'' \<and> \<not> replaced c) s"

subsection \<open>A small world to run the script in\<close>

text \<open>
  The working directory \<^verbatim>\<open>/home/u\<close> in a file system that holds nothing else, no
  fault, and subprocesses that succeed and leave the file system alone.
\<close>

definition demo_env :: env where
  "demo_env = \<lparr>cwd = [''home'', ''u''], fault = (\<lambda>_. None), spawn = (\<lambda>cmd d g. (Exited 0, g))\<rparr>"

definition demo_fs :: filesystem where
  "demo_fs = [[''home''] \<mapsto> Dir, [''home'', ''u''] \<mapsto> Dir]"

text \<open>The same, with an \<^verbatim>\<open>npm install\<close> that fails.\<close>

definition failing_env :: env where
  "failing_env = demo_env\<lparr>spawn := (\<lambda>cmd d g. (if cmd = ''npm install'' then Exited 1 else Exited 0, g))\<rparr>"

text \<open>The file system of the small world with a directory \<^verbatim>\<open>a<\<close> in the working directory.\<close>

definition nested_fs :: filesystem where
  "nested_fs = demo_fs([''home'', ''u'', ''a<''] \<mapsto> Dir)"

section \<open>The script, phase by phase\<close>

lemma resolve_src: "resolve b ''src'' = b @ [''src'']"
  and resolve_index: "resolve b ''index.html'' = b @ [''index.html'']"
  and resolve_app: "resolve b ''app.js'' = b @ [''app.js'']"
  and resolve_webpack: "resolve b ''webpack.config.js'' = b @ [''webpack.config.js'']"
  and resolve_package: "resolve b ''package.json'' = b @ [''package.json'']"
  by (simp_all add: resolve_def normalize_step_def)

lemmas resolve_consts = resolve_src resolve_index resolve_app resolve_webpack resolve_package

lemmas io_defs = bind_def if_then_def return_def existsSync_def mkdirSync_def writeFileSync_def
  execSync_def console_log_def console_error_def process_exit_def emit_event_def start_def

lemma createProject_phases:
  "createProject e n =
     bind (existsSync (resolve (cwd e) n)) (\<lambda>found. block
       (if_then found (block
           [console_error (''Folder '' @ n @ '' already exists.''), process_exit 1])
        # emission e (resolve (cwd e) n) n @ building e (resolve (cwd e) n) n))"
  by (simp add: createProject_def Let_def resolve_consts emission_def building_def)

lemma createProject_exists:
  "node_at (files w) (resolve (cwd e) n) \<noteq> None \<Longrightarrow>
   createProject e n w =
     (Inl (Exit 1), w\<lparr>trace := trace w @
        [Exists (resolve (cwd e) n) True, Error (''Folder '' @ n @ '' already exists.'')]\<rparr>)"
  by (simp add: createProject_def Let_def io_defs)

lemma createProject_fresh:
  "node_at (files w) (resolve (cwd e) n) = None \<Longrightarrow>
   createProject e n w =
     block (emission e (resolve (cwd e) n) n @ building e (resolve (cwd e) n) n)
       (w\<lparr>trace := trace w @ [Exists (resolve (cwd e) n) False]\<rparr>)"
  by (simp add: createProject_phases bind_def existsSync_def if_then_def return_def emit_event_def)

subsection \<open>Emission\<close>

lemma emission_run:
  "emission_succeeds e f p n \<Longrightarrow>
   block (emission e p n @ ms) \<lparr>files = f, trace = t\<rparr> =
   block ms \<lparr>files = scaffolded f p n, trace = t @ emitted p n\<rparr>"
  by (simp add: emission_succeeds_def emission_def io_defs Let_def scaffolded_def emitted_def)

lemma emission_fails:
  assumes "\<not> emission_succeeds e f p n"
  shows "\<exists>x f' tr. block (emission e p n @ ms) \<lparr>files = f, trace = t\<rparr> =
           (Inl (Threw x), \<lparr>files = f', trace = t @ tr\<rparr>) \<and>
         \<not> list_ex is_exec tr \<and>
         (f' = f \<and> (\<exists>err. tr = [Mkdir p (Some err)]) \<or> f' p = Some Dir) \<and>
         tr \<noteq> [] \<and> prefix (butlast tr) (emitted p n) \<and>
         prefix (calls tr) (calls (emitted p n))"
  using assms
  by (auto simp add: emission_succeeds_def emission_def io_defs Let_def is_exec_def emitted_def
      calls_def List.map_filter_simps split: option.splits)

lemma well_formed_child: "well_formed f \<Longrightarrow> node_at f p = None \<Longrightarrow> f (p @ [x]) = None"
  unfolding well_formed_def by (metis butlast_snoc option.distinct(1) snoc_eq_iff_butlast)

lemma well_formed_grandchild: "well_formed f \<Longrightarrow> node_at f p = None \<Longrightarrow> f (p @ [x, y]) = None"
  using well_formed_child[of f "p @ [x]" y] well_formed_child[of f p x]
  by (simp add: node_at_def)

lemma fresh_emission_succeeds:
  assumes wf: "well_formed f"
    and fresh: "node_at f p = None"
    and parent: "node_at f (butlast p) = Some Dir"
    and nf: "no_fault e p"
  shows "emission_succeeds e f p n"
proof -
  have p: "p \<noteq> []" using fresh by (auto simp: node_at_def)
  have c: "\<And>x. f (p @ [x]) = None" using well_formed_child[OF wf fresh] .
  have g: "\<And>x y. f (p @ [x, y]) = None" using well_formed_grandchild[OF wf fresh] .
  have fp: "f p = None" using fresh p by (simp add: node_at_def)
  show ?thesis
    using p c g fp parent nf
    by (simp add: emission_succeeds_def Let_def mkdir_error_def write_error_def node_at_def
        no_fault_def butlast_append)
qed

lemma scaffolded_apply:
  "scaffolded f p n q =
     (if q = p @ [''package.json''] then Some (File (JSON_stringify (pkg n) 2))
      else if q = p @ [''webpack.config.js''] then Some (File (trim webpackConfig))
      else if q = p @ [''src'', ''app.js''] then Some (File (trim appJs))
      else if q = p @ [''index.html''] then Some (File (trim (indexHtml n)))
      else if q = p @ [''src''] \<or> q = p then Some Dir
      else f q)"
  by (simp add: scaffolded_def)

lemma scaffolded_target: "node_at (scaffolded f p n) p \<noteq> None"
  by (simp add: scaffolded_def node_at_def)

subsection \<open>Installing and building\<close>

lemma building_run:
  "block (building e p n) \<lparr>files = f, trace = t\<rparr> =
     (let r1 = spawn e ''npm install'' p f;
          r2 = spawn e ''npm run build'' p (snd r1)
      in if fst r1 \<noteq> Exited 0 then
           (Inl (Threw (ChildError ''npm install'' (fst r1))),
            \<lparr>files = snd r1, trace = t @ install_failed p (fst r1)\<rparr>)
         else if fst r2 \<noteq> Exited 0 then
           (Inl (Threw (ChildError ''npm run build'' (fst r2))),
            \<lparr>files = snd r2, trace = t @ build_failed p (fst r2)\<rparr>)
         else
           (Inr (), \<lparr>files = snd r2, trace = t @ build_failed p (Exited 0) @ report n\<rparr>))"
  by (simp add: building_def io_defs Let_def split_def install_failed_def build_failed_def
      report_def)

subsection \<open>The whole run, case by case\<close>

lemma main_no_name:
  "args = [] \<or> (\<exists>rest. args = [] # rest) \<Longrightarrow>
   main e args (start f) =
     (Inl (Exit 1), \<lparr>files = f, trace = [Error ''Usage: npm create nodality <project-name>'']\<rparr>)"
  by (auto simp add: main_def first_arg_def falsy_def io_defs)

lemma main_named: "n \<noteq> [] \<Longrightarrow> main e (n # rest) w = createProject e n w"
  by (simp add: main_def first_arg_def falsy_def io_defs split: prod.splits sum.splits)

lemma run_no_name:
  "args = [] \<or> (\<exists>rest. args = [] # rest) \<Longrightarrow>
   run e args f =
     (1, \<lparr>files = f, trace = [Error ''Usage: npm create nodality <project-name>'']\<rparr>)"
  by (simp add: run_def main_no_name exit_code_def)

lemma run_exists:
  assumes "n \<noteq> []" and "node_at f (resolve (cwd e) n) \<noteq> None"
  shows "run e (n # rest) f =
     (1, \<lparr>files = f, trace = [Exists (resolve (cwd e) n) True,
                               Error (''Folder '' @ n @ '' already exists.'')]\<rparr>)"
  using assms by (simp add: run_def main_named createProject_exists start_def exit_code_def)

lemma run_emission_fails:
  assumes "n \<noteq> []" and "node_at f (resolve (cwd e) n) = None"
    and "\<not> emission_succeeds e f (resolve (cwd e) n) n"
  shows "\<exists>f' tr. run e (n # rest) f =
             (1, \<lparr>files = f', trace = Exists (resolve (cwd e) n) False # tr\<rparr>) \<and>
           \<not> list_ex is_exec tr \<and>
           (f' = f \<and> (\<exists>err. tr = [Mkdir (resolve (cwd e) n) (Some err)]) \<or>
            f' (resolve (cwd e) n) = Some Dir) \<and>
           tr \<noteq> [] \<and> prefix (butlast tr) (emitted (resolve (cwd e) n) n) \<and>
           prefix (calls tr) (calls (emitted (resolve (cwd e) n) n))"
proof -
  obtain x f' tr where
    "block (emission e (resolve (cwd e) n) n @ building e (resolve (cwd e) n) n)
       \<lparr>files = f, trace = [] @ [Exists (resolve (cwd e) n) False]\<rparr> =
     (Inl (Threw x), \<lparr>files = f', trace = ([] @ [Exists (resolve (cwd e) n) False]) @ tr\<rparr>)"
    and "\<not> list_ex is_exec tr"
        "f' = f \<and> (\<exists>err. tr = [Mkdir (resolve (cwd e) n) (Some err)]) \<or>
         f' (resolve (cwd e) n) = Some Dir"
        "tr \<noteq> []"
        "prefix (butlast tr) (emitted (resolve (cwd e) n) n)"
        "prefix (calls tr) (calls (emitted (resolve (cwd e) n) n))"
    using emission_fails[OF assms(3)] by blast
  then show ?thesis
    using assms(1,2)
    by (simp add: run_def main_named createProject_fresh start_def exit_code_def)
qed

lemma run_emission_ok:
  assumes "n \<noteq> []" and "node_at f (resolve (cwd e) n) = None"
    and "emission_succeeds e f (resolve (cwd e) n) n"
  shows "run e (n # rest) f =
     (let p = resolve (cwd e) n;
          r1 = spawn e ''npm install'' p (scaffolded f p n);
          r2 = spawn e ''npm run build'' p (snd r1);
          t = Exists p False # emitted p n
      in if fst r1 \<noteq> Exited 0 then
           (1, \<lparr>files = snd r1, trace = t @ install_failed p (fst r1)\<rparr>)
         else if fst r2 \<noteq> Exited 0 then
           (1, \<lparr>files = snd r2, trace = t @ build_failed p (fst r2)\<rparr>)
         else
           (0, \<lparr>files = snd r2, trace = t @ build_failed p (Exited 0) @ report n\<rparr>))"
  using assms
  by (simp add: run_def main_named createProject_fresh start_def emission_run building_run
        exit_code_def Let_def)

text \<open>Every run is of one of six kinds.\<close>

lemma run_cases [case_names usage refused emission_failed install_fails build_fails succeeded]:
  obtains
    (usage) "args = [] \<or> (\<exists>rest. args = [] # rest)"
      "run e args f =
         (1, \<lparr>files = f, trace = [Error ''Usage: npm create nodality <project-name>'']\<rparr>)"
  | (refused) n rest where "args = n # rest" "n \<noteq> []"
      "node_at f (resolve (cwd e) n) \<noteq> None"
      "run e args f =
         (1, \<lparr>files = f, trace = [Exists (resolve (cwd e) n) True,
                                   Error (''Folder '' @ n @ '' already exists.'')]\<rparr>)"
  | (emission_failed) n rest f' tr where "args = n # rest" "n \<noteq> []"
      "node_at f (resolve (cwd e) n) = None"
      "\<not> emission_succeeds e f (resolve (cwd e) n) n"
      "run e args f = (1, \<lparr>files = f', trace = Exists (resolve (cwd e) n) False # tr\<rparr>)"
      "\<not> list_ex is_exec tr"
      "f' = f \<and> (\<exists>err. tr = [Mkdir (resolve (cwd e) n) (Some err)]) \<or>
       f' (resolve (cwd e) n) = Some Dir"
      "tr \<noteq> []"
      "prefix (butlast tr) (emitted (resolve (cwd e) n) n)"
      "prefix (calls tr) (calls (emitted (resolve (cwd e) n) n))"
  | (install_fails) n rest p r1 where "args = n # rest" "n \<noteq> []" "p = resolve (cwd e) n"
      "node_at f p = None" "emission_succeeds e f p n"
      "r1 = spawn e ''npm install'' p (scaffolded f p n)" "fst r1 \<noteq> Exited 0"
      "run e args f =
         (1, \<lparr>files = snd r1,
              trace = Exists p False # emitted p n @ install_failed p (fst r1)\<rparr>)"
  | (build_fails) n rest p r1 r2 where "args = n # rest" "n \<noteq> []" "p = resolve (cwd e) n"
      "node_at f p = None" "emission_succeeds e f p n"
      "r1 = spawn e ''npm install'' p (scaffolded f p n)" "fst r1 = Exited 0"
      "r2 = spawn e ''npm run build'' p (snd r1)" "fst r2 \<noteq> Exited 0"
      "run e args f =
         (1, \<lparr>files = snd r2,
              trace = Exists p False # emitted p n @ build_failed p (fst r2)\<rparr>)"
  | (succeeded) n rest p r1 r2 where "args = n # rest" "n \<noteq> []" "p = resolve (cwd e) n"
      "node_at f p = None" "emission_succeeds e f p n"
      "r1 = spawn e ''npm install'' p (scaffolded f p n)" "fst r1 = Exited 0"
      "r2 = spawn e ''npm run build'' p (snd r1)" "fst r2 = Exited 0"
      "run e args f =
         (0, \<lparr>files = snd r2,
              trace = Exists p False # emitted p n @ build_failed p (Exited 0) @ report n\<rparr>)"
proof (cases args)
  case Nil
  then show ?thesis using usage run_no_name[of args e f] by simp
next
  case (Cons n rest)
  show ?thesis
  proof (cases "n = []")
    case True
    then show ?thesis using usage run_no_name[of args e f] Cons by simp
  next
    case named: False
    show ?thesis
    proof (cases "node_at f (resolve (cwd e) n) = None")
      case False
      then show ?thesis using refused[OF Cons named] run_exists[OF named, of f e rest] Cons by simp
    next
      case fresh: True
      show ?thesis
      proof (cases "emission_succeeds e f (resolve (cwd e) n) n")
        case False
        then show ?thesis
          using run_emission_fails[OF named fresh False, of rest]
            emission_failed[OF Cons named fresh False] Cons by blast
      next
        case ok: True
        note r = run_emission_ok[OF named fresh ok, of rest, unfolded Let_def, folded Cons]
        let ?p = "resolve (cwd e) n"
        let ?r1 = "spawn e ''npm install'' ?p (scaffolded f ?p n)"
        let ?r2 = "spawn e ''npm run build'' ?p (snd ?r1)"
        show ?thesis
        proof (cases "fst ?r1 = Exited 0")
          case False
          then show ?thesis
            using install_fails[OF Cons named refl fresh ok refl False] r by simp
        next
          case i: True
          show ?thesis
          proof (cases "fst ?r2 = Exited 0")
            case False
            then show ?thesis
              using build_fails[OF Cons named refl fresh ok refl i refl False] r i by simp
          next
            case True
            then show ?thesis
              using succeeded[OF Cons named refl fresh ok refl i refl True] r i by simp
          qed
        qed
      qed
    qed
  qed
qed

text \<open>What a run that exits with code 0 has written.\<close>

lemma successful_run:
  assumes "fst (run e args f) = 0"
  shows "\<exists>n rest. args = n # rest \<and> n \<noteq> [] \<and>
           trace (snd (run e args f)) =
             Exists (resolve (cwd e) n) False # emitted (resolve (cwd e) n) n @
             build_failed (resolve (cwd e) n) (Exited 0) @ report n"
proof (cases rule: run_cases[of args e f])
  case usage
  then show ?thesis using assms by simp
next
  case (refused n rest)
  then show ?thesis using assms by simp
next
  case (emission_failed n rest f' tr)
  then show ?thesis using assms by simp
next
  case (install_fails n rest p r1)
  then show ?thesis using assms by simp
next
  case (build_fails n rest p r1 r2)
  then show ?thesis using assms by simp
next
  case (succeeded n rest p r1 r2)
  then show ?thesis by simp
qed

section \<open>Traces\<close>

subsection \<open>The events of the three phases\<close>

lemma filter_emitted: "filter is_creation (emitted p n) = emitted p n"
  and filter_install_failed: "filter is_creation (install_failed p st) = []"
  and filter_build_failed: "filter is_creation (build_failed p st) = []"
  and filter_report: "filter is_creation (report n) = []"
  by (simp_all add: emitted_def install_failed_def build_failed_def report_def is_creation_def)

lemma runs_emitted: "filter (runs cmd) (emitted p n) = []"
  by (simp add: emitted_def runs_def)

lemma exec_emitted: "Exec cmd d st \<notin> set (emitted p n)"
  and exec_report: "Exec cmd d st \<notin> set (report n)"
  by (simp_all add: emitted_def report_def)

lemma last_install_failed: "last (t @ install_failed p st) = Exec ''npm install'' p st"
  and last_build_failed: "last (t @ build_failed p st) = Exec ''npm run build'' p st"
  and install_failed_not_Nil: "install_failed p st \<noteq> []"
  and build_failed_not_Nil: "build_failed p st \<noteq> []"
  by (simp_all add: install_failed_def build_failed_def)

lemma runs_install_failed:
  "filter (runs cmd) (install_failed p st) = (if cmd = ''npm install'' then [Exec ''npm install'' p st] else [])"
  and runs_build_failed:
  "filter (runs cmd) (build_failed p st) =
     (if cmd = ''npm install'' then [Exec ''npm install'' p (Exited 0)]
      else if cmd = ''npm run build'' then [Exec ''npm run build'' p st] else [])"
  by (auto simp add: install_failed_def build_failed_def runs_def)

lemma exec_install_failed:
  "Exec cmd d st \<in> set (install_failed p s) \<longleftrightarrow> cmd = ''npm install'' \<and> d = p \<and> st = s"
  and exec_build_failed:
  "Exec cmd d st \<in> set (build_failed p s) \<longleftrightarrow>
     cmd = ''npm install'' \<and> d = p \<and> st = Exited 0 \<or> cmd = ''npm run build'' \<and> d = p \<and> st = s"
  by (auto simp add: install_failed_def build_failed_def)

lemma writes_emitted:
  "filter is_write (emitted p n) =
     [WriteFile (p @ [''index.html'']) (trim (indexHtml n)) None,
      WriteFile (p @ [''src'', ''app.js'']) (trim appJs) None,
      WriteFile (p @ [''webpack.config.js'']) (trim webpackConfig) None,
      WriteFile (p @ [''package.json'']) (JSON_stringify (pkg n) 2) None]"
  and writes_install_failed: "filter is_write (install_failed p st) = []"
  and writes_build_failed: "filter is_write (build_failed p st) = []"
  and writes_report: "filter is_write (report n) = []"
  by (simp_all add: emitted_def install_failed_def build_failed_def report_def is_write_def)

subsection \<open>Calls and the pipeline\<close>

lemma calls_Nil: "calls [] = []"
  and calls_Cons: "calls (ev # tr) = (case call_of ev of None \<Rightarrow> calls tr | Some c \<Rightarrow> c # calls tr)"
  and calls_append: "calls (tr @ tr') = calls tr @ calls tr'"
  by (simp_all add: calls_def List.map_filter_def split: option.splits)

lemma pipeline_split:
  "pipeline p n = CExists p # calls (emitted p n) @ [CExec ''npm install'' p, CExec ''npm run build'' p]"
  by (simp add: emitted_def pipeline_def calls_Cons calls_Nil)

lemma calls_report: "calls (report n) = []"
  by (simp add: report_def calls_Cons calls_Nil)

lemma calls_install_failed: "calls (install_failed p st) = [CExec ''npm install'' p]"
  by (simp add: install_failed_def calls_Cons calls_Nil)

lemma calls_build_failed:
  "calls (build_failed p st) = [CExec ''npm install'' p, CExec ''npm run build'' p]"
  by (simp add: build_failed_def calls_append calls_install_failed calls_Cons calls_Nil)

lemma sorted_pipeline: "sorted (map stage (pipeline p n))"
  by (simp add: pipeline_def)

lemma prefix_sorted: "prefix xs ys \<Longrightarrow> sorted (ys :: nat list) \<Longrightarrow> sorted xs"
  by (auto simp: prefix_def sorted_append)

text \<open>The calls of every run are an initial segment of the pipeline.\<close>

lemma run_calls:
  "prefix (calls (trace (snd (run e args f))))
     (case first_arg args of None \<Rightarrow> [] | Some n \<Rightarrow> pipeline (resolve (cwd e) n) n)"
proof (cases rule: run_cases[of args e f])
  case usage
  then show ?thesis by (simp add: calls_Cons calls_Nil)
next
  case (refused n rest)
  then show ?thesis by (simp add: calls_Cons calls_Nil first_arg_def pipeline_def)
next
  case (emission_failed n rest f' tr)
  then show ?thesis by (simp add: calls_Cons first_arg_def pipeline_split)
next
  case (install_fails n rest p r1)
  then show ?thesis
    by (simp add: calls_Cons calls_append first_arg_def pipeline_split calls_install_failed)
next
  case (build_fails n rest p r1 r2)
  then show ?thesis
    by (simp add: calls_Cons calls_append first_arg_def pipeline_split calls_build_failed)
next
  case (succeeded n rest p r1 r2)
  then show ?thesis
    by (simp add: calls_Cons calls_append first_arg_def pipeline_split calls_build_failed calls_report)
qed

lemma build_after_install:
  assumes "Exec ''npm run build'' d st \<in> set (trace (snd (run e args f)))"
  shows "Exec ''npm install'' d (Exited 0) \<in> set (trace (snd (run e args f)))"
proof (cases rule: run_cases[of args e f])
  case usage
  then show ?thesis using assms by simp
next
  case (refused n rest)
  then show ?thesis using assms by auto
next
  case (emission_failed n rest f' tr)
  then show ?thesis using assms by (auto simp: list_ex_iff is_exec_def)
next
  case (install_fails n rest p r1)
  then show ?thesis using assms by (auto simp: install_failed_def emitted_def)
next
  case (build_fails n rest p r1 r2)
  then show ?thesis using assms by (auto simp: build_failed_def install_failed_def emitted_def)
next
  case (succeeded n rest p r1 r2)
  then show ?thesis
    using assms by (auto simp: build_failed_def install_failed_def emitted_def report_def)
qed

subsection \<open>The files a run writes\<close>

lemma write_call: "WriteFile q d r \<in> set tr \<Longrightarrow> CWrite q d \<in> set (calls tr)"
  by (induction tr) (auto simp: calls_Cons calls_Nil split: option.splits)

lemma count_writes: "length (filter is_write tr) = length (filter is_write_call (calls tr))"
proof (induction tr)
  case Nil
  show ?case by (simp add: calls_Nil)
next
  case (Cons ev tr)
  then show ?case
    by (cases ev) (simp_all add: calls_Cons is_write_def is_write_call_def)
qed

lemma write_in_pipeline:
  assumes "WriteFile q d r \<in> set (trace (snd (run e (n # rest) f)))"
  shows "CWrite q d \<in> set (pipeline (resolve (cwd e) n) n)"
  using run_calls[of e "n # rest" f] write_call[OF assms]
  by (auto simp: first_arg_def dest: set_mono_prefix)

lemma pipeline_writes:
  "filter is_write_call (pipeline p n) =
     [CWrite (p @ [''index.html'']) (trim (indexHtml n)),
      CWrite (p @ [''src'', ''app.js'']) (trim appJs),
      CWrite (p @ [''webpack.config.js'']) (trim webpackConfig),
      CWrite (p @ [''package.json'']) (JSON_stringify (pkg n) 2)]"
  by (simp add: pipeline_def is_write_call_def)

lemma written_file:
  assumes "CWrite (p @ rel) d \<in> set (pipeline p n)"
  shows "rel = [''index.html''] \<and> d = trim (indexHtml n) \<or>
         rel = [''src'', ''app.js''] \<and> d = trim appJs \<or>
         rel = [''webpack.config.js''] \<and> d = trim webpackConfig \<or>
         rel = [''package.json''] \<and> d = JSON_stringify (pkg n) 2"
  using assms by (auto simp: pipeline_def)

text \<open>A run that starts a subprocess has written the four files.\<close>

lemma writes_before_exec:
  assumes "list_ex is_exec (trace (snd (run e (n # rest) f)))"
  shows "filter is_write (trace (snd (run e (n # rest) f))) =
           filter is_write (emitted (resolve (cwd e) n) n)"
proof (cases rule: run_cases[of "n # rest" e f])
  case usage
  then show ?thesis using assms by (simp add: is_exec_def)
next
  case (refused n' rest')
  then show ?thesis using assms by (simp add: is_exec_def)
next
  case (emission_failed n' rest' f' tr)
  then show ?thesis using assms by (simp add: is_exec_def)
next
  case (install_fails n' rest' p r1)
  then show ?thesis by (simp add: writes_install_failed is_write_def)
next
  case (build_fails n' rest' p r1 r2)
  then show ?thesis by (simp add: writes_build_failed is_write_def)
next
  case (succeeded n' rest' p r1 r2)
  then show ?thesis by (simp add: writes_build_failed writes_report is_write_def)
qed

lemma writes_depend_on_name:
  assumes "list_ex is_exec (trace (snd (run e (n # rest) f)))"
  shows "map written_data (filter is_write (trace (snd (run e (n # rest) f)))) =
           [trim (indexHtml n), trim appJs, trim webpackConfig, JSON_stringify (pkg n) 2]"
  using writes_before_exec[OF assms] by (simp add: writes_emitted written_data_def)

lemma written_append:
  "written (xs @ ys) q = (case written ys q of Some d \<Rightarrow> Some d | None \<Rightarrow> written xs q)"
  by (induction xs) (simp_all split: option.splits)

lemma written_manifest:
  "written (emitted p n) (p @ [''package.json'']) = Some (JSON_stringify (pkg n) 2)"
  and written_index:
  "written (emitted p n) (p @ [''index.html'']) = Some (trim (indexHtml n))"
  by (simp_all add: emitted_def)

lemma written_no_writes: "filter is_write tr = [] \<Longrightarrow> written tr q = None"
proof (induction tr)
  case Nil
  show ?case by simp
next
  case (Cons ev tr)
  then show ?case by (cases ev) (simp_all add: is_write_def split: if_splits)
qed

lemma written_after_emission:
  "written (build_failed p st @ report n) q = None"
  by (rule written_no_writes) (simp add: writes_build_failed writes_report)

lemma successful_run_written:
  assumes "fst (run e args f) = 0"
  shows "\<exists>n. first_arg args = Some n \<and> n \<noteq> [] \<and>
           written (trace (snd (run e args f))) (resolve (cwd e) n @ [''package.json'']) =
             Some (JSON_stringify (pkg n) 2) \<and>
           written (trace (snd (run e args f))) (resolve (cwd e) n @ [''index.html'']) =
             Some (trim (indexHtml n))"
proof -
  obtain n rest where a: "args = n # rest" "n \<noteq> []"
    and t: "trace (snd (run e args f)) =
             Exists (resolve (cwd e) n) False # emitted (resolve (cwd e) n) n @
             build_failed (resolve (cwd e) n) (Exited 0) @ report n"
    using successful_run[OF assms] by blast
  have "written (trace (snd (run e args f))) (resolve (cwd e) n @ [''package.json'']) =
          Some (JSON_stringify (pkg n) 2)"
    and "written (trace (snd (run e args f))) (resolve (cwd e) n @ [''index.html'']) =
          Some (trim (indexHtml n))"
    unfolding t
    using written_append[of "[Exists (resolve (cwd e) n) False]"
        "emitted (resolve (cwd e) n) n @ build_failed (resolve (cwd e) n) (Exited 0) @ report n"]
      written_append[of "emitted (resolve (cwd e) n) n"
        "build_failed (resolve (cwd e) n) (Exited 0) @ report n"]
    by (simp_all add: written_after_emission written_manifest written_index)
  then show ?thesis
    using a by (simp add: first_arg_def)
qed

subsection \<open>What a second run finds\<close>

lemma keeps_node: "keeps e p \<Longrightarrow> node_at g p \<noteq> None \<Longrightarrow> node_at (snd (spawn e cmd d g)) p \<noteq> None"
  by (simp add: keeps_def)

text \<open>A run that created the target directory ends with the target in place.\<close>

lemma created_target_stays:
  assumes k: "keeps e (resolve (cwd e) n)"
    and m: "Mkdir (resolve (cwd e) n) None \<in> set (trace (snd (run e (n # rest) f)))"
  shows "n \<noteq> [] \<and> node_at (files (snd (run e (n # rest) f))) (resolve (cwd e) n) \<noteq> None"
proof (cases rule: run_cases[of "n # rest" e f])
  case usage
  then show ?thesis using m by simp
next
  case (refused n' rest')
  then show ?thesis using m by auto
next
  case (emission_failed n' rest' f' tr)
  then show ?thesis using m by (auto simp: node_at_def)
next
  case (install_fails n' rest' p r1)
  then show ?thesis using keeps_node[OF k scaffolded_target, of "''npm install''" p f n] by simp
next
  case (build_fails n' rest' p r1 r2)
  then show ?thesis
    using keeps_node[OF k keeps_node[OF k scaffolded_target], of "''npm run build''" p "''npm install''" p f n]
    by simp
next
  case (succeeded n' rest' p r1 r2)
  then show ?thesis
    using keeps_node[OF k keeps_node[OF k scaffolded_target], of "''npm run build''" p "''npm install''" p f n]
    by simp
qed

section \<open>The texts the script writes\<close>

subsection \<open>The three templates\<close>

lemma index_html_text:
  \<open>trim (indexHtml n) =
     ''<!DOCTYPE html>\<newline>'' @
     ''<html lang="en">\<newline>'' @
     ''<head>\<newline>'' @
     ''  <meta charset="UTF-8">\<newline>'' @
     ''  <meta name="viewport" content="width=device-width, initial-scale=1.0">\<newline>'' @
     ''  <title>'' @ n @ ''</title>\<newline>'' @
     ''\<newline>'' @
     ''  <!-- importmap to map "nodality" to node_modules path -->\<newline>'' @
     ''  <script type="importmap">\<newline>'' @
     ''  {\<newline>'' @
     ''    "imports": {\<newline>'' @
     ''      "nodality": "/node_modules/nodality/dist/index.esm.js"\<newline>'' @
     ''    }\<newline>'' @
     ''  }\<newline>'' @
     ''  </script>\<newline>'' @
     ''</head>\<newline>'' @
     ''<body>\<newline>'' @
     ''  <div id="mount"></div>\<newline>'' @
     ''\<newline>'' @
     ''  <!-- User app -->\<newline>'' @
     ''  <script type="module" src="src/app.js"></script>\<newline>'' @
     ''</body>\<newline>'' @
     ''</html>''\<close>
  by (simp add: trim_def indexHtml_def is_space_def)

lemma app_js_text:
  \<open>trim appJs =
     ''import { Des } from "nodality";           \<newline>'' @
     ''\<newline>'' @
     ''const elements = [\<newline>'' @
     ''  { type: "h1", text: "Hello" }\<newline>'' @
     ''];\<newline>'' @
     ''\<newline>'' @
     ''const nodes = [\<newline>'' @
     ''  { op: "blast" }\<newline>'' @
     ''];\<newline>'' @
     ''\<newline>'' @
     ''new Des()\<newline>'' @
     ''  .nodes(nodes)\<newline>'' @
     ''  .add(elements)\<newline>'' @
     ''  .set({\<newline>'' @
     ''    mount: "#mount",\<newline>'' @
     ''    code: true,\<newline>'' @
     ''  });''\<close>
  by (simp add: trim_def appJs_def is_space_def)

lemma webpack_config_text:
  \<open>trim webpackConfig =
     ''import path from "path";\<newline>'' @
     ''import { fileURLToPath } from "url";\<newline>'' @
     ''\<newline>'' @
     ''const __filename = fileURLToPath(import.meta.url);\<newline>'' @
     ''const __dirname = path.dirname(__filename);\<newline>'' @
     ''\<newline>'' @
     ''export default {\<newline>'' @
     ''  mode: "production",\<newline>'' @
     ''  entry: "nodality",               // bundle Nodality only\<newline>'' @
     ''  output: {\<newline>'' @
     ''    path: path.resolve(__dirname, "dist"),\<newline>'' @
     ''    filename: "lib.bundle.js",\<newline>'' @
     ''    library: { type: "module" },   // ESM output\<newline>'' @
     ''    environment: { module: true },\<newline>'' @
     ''    clean: true,\<newline>'' @
     ''    publicPath: "/",\<newline>'' @
     ''  },\<newline>'' @
     ''  experiments: { outputModule: true },\<newline>'' @
     ''  module: {\<newline>'' @
     ''    rules: [\<newline>'' @
     ''      {\<newline>'' @
     ''        test: /'' @ [CHR 0x5C] @ ''.m?js$/,\<newline>'' @
     ''        exclude: /node_modules/,\<newline>'' @
     ''        use: { loader: "babel-loader", options: { presets: ["@babel/preset-env"] } },\<newline>'' @
     ''      },\<newline>'' @
     ''    ],\<newline>'' @
     ''  },\<newline>'' @
     ''};''\<close>
  by (simp add: trim_def webpackConfig_def is_space_def)

lemma title_shift:
  "\<exists>before after. ys = before @ t @ n @ u @ after \<Longrightarrow>
   \<exists>before after. xs @ ys = before @ t @ n @ u @ (after :: string)"
  by (metis append.assoc)

lemma title_in_index_html:
  "\<exists>before after. trim (indexHtml n) = before @ ''<title>'' @ n @ ''</title>'' @ after"
  unfolding index_html_text
  apply (rule title_shift, rule title_shift, rule title_shift, rule title_shift, rule title_shift)
  apply (rule exI[of _ "''  ''"])
  apply (rule exI)
  apply simp
  done

subsection \<open>The title, read back\<close>

lemma title_text_end: "title_text (''</title>'' @ t) = Some []"
  by (simp add: title_end_tag_def)

lemma title_text_plain: "plain_text n \<Longrightarrow> title_text (n @ ''</title>'' @ t) = Some n"
proof (induction n)
  case Nil
  show ?case using title_text_end by simp
next
  case (Cons c n)
  then show ?case by (auto simp add: title_end_tag_def plain_text_def)
qed

lemma title_element_index_html:
  "\<exists>after. title_element (trim (indexHtml n)) = title_text (n @ ''</title>'' @ after)"
  unfolding index_html_text
  apply simp
  apply (rule exI)
  apply (rule refl)
  done

lemma title_of_plain_name: "plain_text n \<Longrightarrow> title_element (trim (indexHtml n)) = Some n"
  using title_element_index_html[of n] title_text_plain[of n] by auto

subsection \<open>The manifest, read back\<close>

lemma pkg_scripts:
  "map fst (object_at ''scripts'' (pkg n)) = [''build'', ''watch'', ''start'', ''dev'']"
  and pkg_dependencies:
  "object_at ''dependencies'' (pkg n) = [(''nodality'', JString ''latest'')]"
  and pkg_devDependencies:
  "map fst (object_at ''devDependencies'' (pkg n)) =
     [''@babel/core'', ''@babel/preset-env'', ''babel-loader'', ''live-server'', ''npm-run-all'',
      ''serve'', ''webpack'', ''webpack-cli'', ''webpack-dev-server'']"
  and pkg_carets:
  "list_all caret_range (map snd (object_at ''devDependencies'' (pkg n)))"
  by (simp_all add: pkg_def object_at_def member_def)

lemma pkg_name: "member ''name'' (pkg n) = Some (JString n)"
  by (simp add: pkg_def member_def)

lemma hex_value_digit: "d < 16 \<Longrightarrow> hex_value (hex_digit d) = Some d"
proof -
  assume "d < 16"
  then have "d = 0 \<or> d = 1 \<or> d = 2 \<or> d = 3 \<or> d = 4 \<or> d = 5 \<or> d = 6 \<or> d = 7 \<or> d = 8 \<or>
             d = 9 \<or> d = 10 \<or> d = 11 \<or> d = 12 \<or> d = 13 \<or> d = 14 \<or> d = 15"
    by arith
  then show ?thesis
    by (elim disjE) (simp_all add: hex_value_def hex_digit_def)
qed

text \<open>Whatever \<open>quote_char\<close> writes for a character, \<open>parse_chars\<close> reads as that character.\<close>

lemma parse_chars_quote_char:
  "parse_chars (quote_char c @ rest) = cons_char c (parse_chars rest)"
proof -
  consider (short) "c \<in> set [CHR 0x08, CHR 0x09, CHR 0x0A, CHR 0x0C, CHR 0x0D, CHR 0x22, CHR 0x5C]"
    | (ctl) "c \<notin> set [CHR 0x08, CHR 0x09, CHR 0x0A, CHR 0x0C, CHR 0x0D, CHR 0x22, CHR 0x5C]"
        "(of_char c :: nat) < 0x20"
    | (plain) "c \<notin> set [CHR 0x08, CHR 0x09, CHR 0x0A, CHR 0x0C, CHR 0x0D, CHR 0x22, CHR 0x5C]"
        "\<not> (of_char c :: nat) < 0x20"
    by blast
  then show ?thesis
  proof cases
    case short
    then show ?thesis
      by (auto simp: quote_char_def unescape_def)
  next
    case ctl
    let ?v = "of_char c :: nat"
    have hi: "?v div 16 < 16" and lo: "?v mod 16 < 16" using ctl(2) by auto
    have z: "hex_value (CHR ''0'') = Some 0" by (simp add: hex_value_def)
    have v: "((0 * 16 + 0) * 16 + ?v div 16) * 16 + ?v mod 16 = ?v" by simp
    have q: "quote_char c =
        [CHR 0x5C, CHR ''u'', CHR ''0'', CHR ''0'', hex_digit (?v div 16), hex_digit (?v mod 16)]"
      using ctl by (simp add: quote_char_def)
    show ?thesis
      using ctl(2)
      by (simp add: q z hex_value_digit[OF hi] hex_value_digit[OF lo] v del: of_char_eq_iff)
  next
    case plain
    then show ?thesis
      by (simp add: quote_char_def)
  qed
qed

lemma parse_chars_quoted:
  "parse_chars (concat (map quote_char s) @ CHR 0x22 # rest) = Some (s, rest)"
  by (induction s)
     (simp_all add: parse_chars_quote_char cons_char_def del: parse_chars.simps(2), simp)

lemma parse_value_quoted:
  "parse_value (Suc k) (CHR '' '' # CHR 0x22 # concat (map quote_char t) @ CHR 0x22 # rest) =
     Some (JString t, rest)"
  by (simp add: skip_ws_def parse_chars_quoted)

text \<open>More fuel never changes an answer.\<close>

lemma fuel_Suc:
  "(parse_value k s = Some r \<longrightarrow> parse_value (Suc k) s = Some r) \<and>
   (parse_members k s = Some r' \<longrightarrow> parse_members (Suc k) s = Some r')"
proof (induction k arbitrary: s r r')
  case 0
  show ?case by simp
next
  case (Suc k)
  have v: "\<And>s r. parse_value k s = Some r \<Longrightarrow> parse_value (Suc k) s = Some r"
    and m: "\<And>s r. parse_members k s = Some r \<Longrightarrow> parse_members (Suc k) s = Some r"
    using Suc.IH by blast+
  have "parse_value (Suc k) s = Some r \<Longrightarrow> parse_value (Suc (Suc k)) s = Some r"
    by (subst parse_value.simps(2), subst (asm) parse_value.simps(2))
       (auto simp del: parse_value.simps parse_members.simps
             split: list.splits option.splits if_splits dest!: m)
  moreover have "parse_members (Suc k) s = Some r' \<Longrightarrow> parse_members (Suc (Suc k)) s = Some r'"
    by (subst parse_members.simps(2), subst (asm) parse_members.simps(2))
       (auto simp del: parse_value.simps parse_members.simps
             split: list.splits option.splits if_splits dest!: m v)
  ultimately show ?case by blast
qed

lemma fuel_mono: "parse_value k s = Some r \<Longrightarrow> k \<le> k' \<Longrightarrow> parse_value k' s = Some r"
proof (induction k')
  case 0
  then show ?case by simp
next
  case (Suc k')
  show ?case
  proof (cases "k = Suc k'")
    case True
    then show ?thesis using Suc.prems by simp
  next
    case False
    then have "parse_value k' s = Some r" using Suc by simp
    then show ?thesis using fuel_Suc by blast
  qed
qed

lemma join_Cons: "ys \<noteq> [] \<Longrightarrow> join sep (x # ys) = x @ sep @ join sep ys"
  by (cases ys) simp_all

text \<open>The manifest the script writes parses back to the object it was made from.\<close>

lemma parse_stringify_pkg: "JSON_parse (JSON_stringify (pkg n) 2) = Some (pkg n)"
proof -
  define fixed where "fixed = (case pkg [] of JObject kvs \<Rightarrow> tl kvs | _ \<Rightarrow> [])"
  define tail where
    "tail = ''\<newline>  '' @ join ('',\<newline>'' @ ''  '') (serialize_members ''  '' ''  '' fixed) @ ''\<newline>}''"
  define k where "k = (17::nat)"
  have pkg: "pkg n = JObject ((''name'', JString n) # fixed)"
    by (simp add: fixed_def pkg_def)
  have ne: "serialize_members ''  '' ''  '' fixed \<noteq> []"
    by (simp add: fixed_def pkg_def)
  have shape: "JSON_stringify (pkg n) 2 =
      ''{\<newline>  '' @ QuoteJSONString ''name'' @ '': '' @
        CHR 0x22 # concat (map quote_char n) @ CHR 0x22 # CHR '','' # tail"
    unfolding pkg JSON_stringify_def tail_def
    by (simp add: numeral_2_eq_2 Let_def join_Cons ne) (simp add: QuoteJSONString_def)
  have name: "QuoteJSONString ''name'' = CHR 0x22 # ''name'' @ [CHR 0x22]"
    by (simp add: QuoteJSONString_def quote_char_def)
  have tail_parse: "parse_members k tail = Some (fixed, [])"
    unfolding tail_def fixed_def k_def by code_simp
  have value_parse: "\<And>rest.
      parse_value k (CHR '' '' # CHR 0x22 # concat (map quote_char n) @ CHR 0x22 # rest) =
      Some (JString n, rest)"
    using parse_value_quoted[of 16 n] by (simp add: k_def)
  have tail_length: "k < length tail"
    unfolding tail_def fixed_def k_def by code_simp
  have "parse_members (Suc k) (QuoteJSONString ''name'' @ '': '' @
        CHR 0x22 # concat (map quote_char n) @ CHR 0x22 # CHR '','' # tail) =
      Some ((''name'', JString n) # fixed, [])"
    by (simp add: name skip_ws_def value_parse tail_parse cons_char_def del: parse_value.simps)
  then have "parse_value (Suc (Suc k)) (''{\<newline>  '' @ QuoteJSONString ''name'' @ '': '' @
        CHR 0x22 # concat (map quote_char n) @ CHR 0x22 # CHR '','' # tail) =
      Some (JObject ((''name'', JString n) # fixed), [])"
    by (simp add: skip_ws_def name del: parse_members.simps)
  then have "parse_value (Suc (Suc k)) (JSON_stringify (pkg n) 2) = Some (pkg n, [])"
    by (subst shape) (simp only: pkg)
  moreover have "Suc (Suc k) \<le> length (JSON_stringify (pkg n) 2)"
    unfolding shape using tail_length by simp
  ultimately have
    "parse_value (length (JSON_stringify (pkg n) 2)) (JSON_stringify (pkg n) 2) = Some (pkg n, [])"
    by (rule fuel_mono)
  then show ?thesis
    by (simp add: JSON_parse_def skip_ws_def)
qed

section \<open>Runs in the small world\<close>

lemma demo_target: "resolve (cwd demo_env) ''demo'' = [''home'', ''u'', ''demo'']"
  by (simp add: demo_env_def resolve_def normalize_step_def)

lemma demo_well_formed: "well_formed demo_fs"
  by (auto simp: well_formed_def demo_fs_def node_at_def split: if_splits)

lemma demo_no_fault: "no_fault demo_env p"
  by (simp add: no_fault_def demo_env_def)

lemma demo_emission_succeeds:
  "emission_succeeds demo_env demo_fs [''home'', ''u'', ''demo''] ''demo''"
  by (rule fresh_emission_succeeds[OF demo_well_formed _ _ demo_no_fault])
     (simp_all add: node_at_def demo_fs_def)

lemma demo_keeps: "keeps demo_env p"
  by (simp add: keeps_def demo_env_def)

lemma demo_run:
  "run demo_env [''demo''] demo_fs =
     (0, \<lparr>files = scaffolded demo_fs [''home'', ''u'', ''demo''] ''demo'',
          trace = Exists [''home'', ''u'', ''demo''] False # emitted [''home'', ''u'', ''demo''] ''demo'' @
                  build_failed [''home'', ''u'', ''demo''] (Exited 0) @ report ''demo''\<rparr>)"
proof -
  have "node_at demo_fs (resolve (cwd demo_env) ''demo'') = None"
    by (simp add: demo_target node_at_def demo_fs_def)
  moreover have "emission_succeeds demo_env demo_fs (resolve (cwd demo_env) ''demo'') ''demo''"
    by (simp add: demo_target demo_emission_succeeds)
  ultimately have "run demo_env (''demo'' # []) demo_fs = (let p = resolve (cwd demo_env) ''demo'';
          r1 = spawn demo_env ''npm install'' p (scaffolded demo_fs p ''demo'');
          r2 = spawn demo_env ''npm run build'' p (snd r1);
          t = Exists p False # emitted p ''demo''
      in if fst r1 \<noteq> Exited 0 then
           (1, \<lparr>files = snd r1, trace = t @ install_failed p (fst r1)\<rparr>)
         else if fst r2 \<noteq> Exited 0 then
           (1, \<lparr>files = snd r2, trace = t @ build_failed p (fst r2)\<rparr>)
         else
           (0, \<lparr>files = snd r2, trace = t @ build_failed p (Exited 0) @ report ''demo''\<rparr>))"
    by (intro run_emission_ok) simp_all
  then show ?thesis
    by (simp add: demo_target Let_def) (simp add: demo_env_def)
qed

lemma failing_run:
  "run failing_env [''demo''] demo_fs =
     (1, \<lparr>files = scaffolded demo_fs [''home'', ''u'', ''demo''] ''demo'',
          trace = Exists [''home'', ''u'', ''demo''] False # emitted [''home'', ''u'', ''demo''] ''demo'' @
                  install_failed [''home'', ''u'', ''demo''] (Exited 1)\<rparr>)"
proof -
  have t: "resolve (cwd failing_env) ''demo'' = [''home'', ''u'', ''demo'']"
    using demo_target by (simp add: failing_env_def)
  have "node_at demo_fs (resolve (cwd failing_env) ''demo'') = None"
    by (simp add: t node_at_def demo_fs_def)
  moreover have "emission_succeeds failing_env demo_fs (resolve (cwd failing_env) ''demo'') ''demo''"
    unfolding t
    by (rule fresh_emission_succeeds[OF demo_well_formed])
       (simp_all add: node_at_def demo_fs_def no_fault_def failing_env_def demo_env_def)
  ultimately have "run failing_env (''demo'' # []) demo_fs = (let p = resolve (cwd failing_env) ''demo'';
          r1 = spawn failing_env ''npm install'' p (scaffolded demo_fs p ''demo'');
          r2 = spawn failing_env ''npm run build'' p (snd r1);
          t = Exists p False # emitted p ''demo''
      in if fst r1 \<noteq> Exited 0 then
           (1, \<lparr>files = snd r1, trace = t @ install_failed p (fst r1)\<rparr>)
         else if fst r2 \<noteq> Exited 0 then
           (1, \<lparr>files = snd r2, trace = t @ build_failed p (fst r2)\<rparr>)
         else
           (0, \<lparr>files = snd r2, trace = t @ build_failed p (Exited 0) @ report ''demo''\<rparr>))"
    by (intro run_emission_ok) simp_all
  then show ?thesis
    by (simp add: t Let_def) (simp add: failing_env_def demo_env_def)
qed

lemma other_target: "resolve (cwd demo_env) ''other'' = [''home'', ''u'', ''other'']"
  by (simp add: demo_env_def resolve_def normalize_step_def)

lemma other_run_writes:
  "WriteFile [''home'', ''u'', ''other'', ''src'', ''app.js''] (trim appJs) None
     \<in> set (trace (snd (run demo_env [''other''] demo_fs)))"
proof -
  have "node_at demo_fs (resolve (cwd demo_env) ''other'') = None"
    by (simp add: other_target node_at_def demo_fs_def)
  moreover have "emission_succeeds demo_env demo_fs (resolve (cwd demo_env) ''other'') ''other''"
    unfolding other_target
    by (rule fresh_emission_succeeds[OF demo_well_formed _ _ demo_no_fault])
       (simp_all add: node_at_def demo_fs_def)
  ultimately have "run demo_env (''other'' # []) demo_fs = (let p = resolve (cwd demo_env) ''other'';
          r1 = spawn demo_env ''npm install'' p (scaffolded demo_fs p ''other'');
          r2 = spawn demo_env ''npm run build'' p (snd r1);
          t = Exists p False # emitted p ''other''
      in if fst r1 \<noteq> Exited 0 then
           (1, \<lparr>files = snd r1, trace = t @ install_failed p (fst r1)\<rparr>)
         else if fst r2 \<noteq> Exited 0 then
           (1, \<lparr>files = snd r2, trace = t @ build_failed p (fst r2)\<rparr>)
         else
           (0, \<lparr>files = snd r2, trace = t @ build_failed p (Exited 0) @ report ''other''\<rparr>))"
    by (intro run_emission_ok) simp_all
  then show ?thesis
    by (simp add: other_target Let_def) (simp add: demo_env_def emitted_def)
qed

lemma demo_run_writes:
  "WriteFile [''home'', ''u'', ''demo'', ''src'', ''app.js''] (trim appJs) None
     \<in> set (trace (snd (run demo_env [''demo''] demo_fs)))"
  and demo_run_manifest:
  "WriteFile [''home'', ''u'', ''demo'', ''package.json''] (JSON_stringify (pkg ''demo'') 2) None
     \<in> set (trace (snd (run demo_env [''demo''] demo_fs)))"
  and failing_run_manifest:
  "WriteFile [''home'', ''u'', ''demo'', ''package.json''] (JSON_stringify (pkg ''demo'') 2) None
     \<in> set (trace (snd (run failing_env [''demo''] demo_fs)))"
  by (simp_all add: demo_run failing_run emitted_def)

lemma nested_target:
  "resolve (cwd demo_env) ''a</title>b'' = [''home'', ''u'', ''a<'', ''title>b'']"
  by (simp add: demo_env_def resolve_def normalize_step_def)

lemma nested_well_formed: "well_formed nested_fs"
  by (auto simp: well_formed_def nested_fs_def demo_fs_def node_at_def split: if_splits)

lemma nested_run: "fst (run demo_env [''a</title>b''] nested_fs) = 0"
proof -
  have "node_at nested_fs (resolve (cwd demo_env) ''a</title>b'') = None"
    by (simp add: nested_target node_at_def nested_fs_def demo_fs_def)
  moreover have "emission_succeeds demo_env nested_fs (resolve (cwd demo_env) ''a</title>b'')
      ''a</title>b''"
    unfolding nested_target
    by (rule fresh_emission_succeeds[OF nested_well_formed _ _ demo_no_fault])
       (simp_all add: node_at_def nested_fs_def demo_fs_def)
  ultimately have "run demo_env (''a</title>b'' # []) nested_fs =
      (let p = resolve (cwd demo_env) ''a</title>b'';
          r1 = spawn demo_env ''npm install'' p (scaffolded nested_fs p ''a</title>b'');
          r2 = spawn demo_env ''npm run build'' p (snd r1);
          t = Exists p False # emitted p ''a</title>b''
      in if fst r1 \<noteq> Exited 0 then
           (1, \<lparr>files = snd r1, trace = t @ install_failed p (fst r1)\<rparr>)
         else if fst r2 \<noteq> Exited 0 then
           (1, \<lparr>files = snd r2, trace = t @ build_failed p (fst r2)\<rparr>)
         else
           (0, \<lparr>files = snd r2, trace = t @ build_failed p (Exited 0) @ report ''a</title>b''\<rparr>))"
    by (intro run_emission_ok) simp_all
  then show ?thesis
    by (simp add: Let_def) (simp add: demo_env_def)
qed

lemma nested_title: "title_element (trim (indexHtml ''a</title>b'')) = Some ''a''"
  unfolding index_html_text by (simp add: title_end_tag_def replaced_def)

section \<open>The claims\<close>

text \<open>
  C1, as amended. The claim as written fails for a name such as \<^verbatim>\<open>a/b\<close> when
  \<^verbatim>\<open>./a\<close> does not exist: nothing exists at \<^verbatim>\<open>./a/b\<close>, but \<^verbatim>\<open>mkdirSync\<close> is
  called without \<^verbatim>\<open>recursive\<close> and throws \<^verbatim>\<open>ENOENT\<close>, so the run creates nothing and
  exits with code 1 (the counterexample below).

  What holds: let the name be non-empty, let nothing exist at the resolved target \<open>p\<close>,
  let the parent of \<open>p\<close> be an existing directory (in a file system that is a tree), and
  let the operating system refuse none of the six creations. Then the creations the run
  makes are exactly the two directories \<open>p\<close> and \<open>p/src\<close> and the four files
  \<^verbatim>\<open>index.html\<close>, \<^verbatim>\<open>src/app.js\<close>, \<^verbatim>\<open>webpack.config.js\<close> and \<^verbatim>\<open>package.json\<close>,
  each successful; \<^verbatim>\<open>npm install\<close> is started in \<open>p\<close> on the file system
  \<open>scaffolded f p n\<close>, which differs from the initial one at these six paths only; the
  exit code is 0 if and only if both subprocesses exit with status 0, and 1 otherwise; and
  the final file system is what the last subprocess that ran left.
\<close>

theorem fresh_target_is_scaffolded:
  fixes e :: env and n :: string and rest :: "string list" and f :: filesystem
  defines "p \<equiv> resolve (cwd e) n"
  defines "r1 \<equiv> spawn e ''npm install'' p (scaffolded f p n)"
  defines "r2 \<equiv> spawn e ''npm run build'' p (snd r1)"
  assumes named: "n \<noteq> []"
    and tree: "well_formed f"
    and fresh: "node_at f p = None"
    and parent: "node_at f (butlast p) = Some Dir"
    and granted: "no_fault e p"
  shows "filter is_creation (trace (snd (run e (n # rest) f))) = emitted p n \<and>
         Exec ''npm install'' p (fst r1) \<in> set (trace (snd (run e (n # rest) f))) \<and>
         (fst (run e (n # rest) f) = 0) = (fst r1 = Exited 0 \<and> fst r2 = Exited 0) \<and>
         fst (run e (n # rest) f) \<le> 1 \<and>
         files (snd (run e (n # rest) f)) = (if fst r1 = Exited 0 then snd r2 else snd r1) \<and>
         (\<forall>q. scaffolded f p n q =
            (if q = p @ [''package.json''] then Some (File (JSON_stringify (pkg n) 2))
             else if q = p @ [''webpack.config.js''] then Some (File (trim webpackConfig))
             else if q = p @ [''src'', ''app.js''] then Some (File (trim appJs))
             else if q = p @ [''index.html''] then Some (File (trim (indexHtml n)))
             else if q = p @ [''src''] \<or> q = p then Some Dir
             else f q))"
proof -
  have ok: "emission_succeeds e f (resolve (cwd e) n) n"
    using fresh_emission_succeeds[OF tree fresh parent granted] by (simp add: p_def)
  have fr: "node_at f (resolve (cwd e) n) = None"
    using fresh by (simp add: p_def)
  note r = run_emission_ok[OF named fr ok, of rest, unfolded Let_def, folded p_def, folded r1_def, folded r2_def]
  show ?thesis
    by (simp add: r scaffolded_apply filter_emitted filter_install_failed filter_build_failed
        filter_report is_creation_def)
       (simp add: install_failed_def build_failed_def)
qed

theorem fresh_target_is_scaffolded_witness:
  "''demo'' \<noteq> [] \<and> well_formed demo_fs \<and>
   node_at demo_fs (resolve (cwd demo_env) ''demo'') = None \<and>
   node_at demo_fs (butlast (resolve (cwd demo_env) ''demo'')) = Some Dir \<and>
   no_fault demo_env (resolve (cwd demo_env) ''demo'') \<and>
   filter is_creation (trace (snd (run demo_env [''demo''] demo_fs))) =
     emitted [''home'', ''u'', ''demo''] ''demo'' \<and>
   fst (run demo_env [''demo''] demo_fs) = 0 \<and>
   files (snd (run demo_env [''demo''] demo_fs)) =
     scaffolded demo_fs [''home'', ''u'', ''demo''] ''demo''"
proof -
  have h1: "''demo'' \<noteq> []" by simp
  have h3: "node_at demo_fs (resolve (cwd demo_env) ''demo'') = None"
    by (simp add: demo_target node_at_def demo_fs_def)
  have h4: "node_at demo_fs (butlast (resolve (cwd demo_env) ''demo'')) = Some Dir"
    by (simp add: demo_target node_at_def demo_fs_def)
  note t = fresh_target_is_scaffolded[OF h1 demo_well_formed h3 h4 demo_no_fault, of "[]"]
  have "filter is_creation (trace (snd (run demo_env [''demo''] demo_fs))) =
     emitted [''home'', ''u'', ''demo''] ''demo''"
    using t by (simp add: demo_target)
  moreover have "fst (run demo_env [''demo''] demo_fs) = 0"
    by (simp add: demo_run)
  moreover have "files (snd (run demo_env [''demo''] demo_fs)) =
     scaffolded demo_fs [''home'', ''u'', ''demo''] ''demo''"
    by (simp add: demo_run)
  ultimately show ?thesis
    using h1 h3 h4 demo_well_formed demo_no_fault by blast
qed

text \<open>
  The input at which C1 fails as written: in the working directory \<^verbatim>\<open>/home/u\<close>, which
  holds nothing, the name \<^verbatim>\<open>a/b\<close> is non-empty and nothing exists at
  \<^verbatim>\<open>/home/u/a/b\<close>; both subprocesses would exit with status 0. The run makes the
  existence check and one \<^verbatim>\<open>mkdirSync\<close> call, which fails with \<^verbatim>\<open>ENOENT\<close>; it exits
  with code 1 and the target does not exist afterwards.
\<close>

theorem nested_name_counterexample:
  "''a/b'' \<noteq> [] \<and>
   node_at demo_fs (resolve (cwd demo_env) ''a/b'') = None \<and>
   run demo_env [''a/b''] demo_fs =
     (1, \<lparr>files = demo_fs,
          trace = [Exists [''home'', ''u'', ''a'', ''b''] False,
                   Mkdir [''home'', ''u'', ''a'', ''b''] (Some ENOENT)]\<rparr>) \<and>
   files (snd (run demo_env [''a/b''] demo_fs)) [''home'', ''u'', ''a'', ''b''] = None"
proof -
  have t: "resolve (cwd demo_env) ''a/b'' = [''home'', ''u'', ''a'', ''b'']"
    by (simp add: demo_env_def resolve_def normalize_step_def)
  have r: "run demo_env [''a/b''] demo_fs =
     (1, \<lparr>files = demo_fs,
          trace = [Exists [''home'', ''u'', ''a'', ''b''] False,
                   Mkdir [''home'', ''u'', ''a'', ''b''] (Some ENOENT)]\<rparr>)"
    by (simp add: run_def main_named createProject_def Let_def t io_defs exit_code_def
        mkdir_error_def node_at_def demo_fs_def)
  show ?thesis
    by (simp add: r t) (simp add: node_at_def demo_fs_def)
qed

text \<open>
  C2. If an entry, file or directory, exists at the resolved target, \<open>createProject\<close>
  prints \<^verbatim>\<open>Folder <name> already exists.\<close> on the error stream and exits with code 1.
  The existence check and the message are the only events: no directory is created, no
  file is written, no subprocess is started, and the file system is what it was. For a
  non-empty name this is the whole run of the tool.

  The second run: when a first run has created the target directory and no subprocess of
  it removes the target, a second run with the same name from the same working directory,
  on the file system the first run left, is refused in this way, whatever the first run's
  outcome was; the file system the first run left is not changed.
\<close>

theorem existing_target_is_refused:
  "(node_at f (resolve (cwd e) n) \<noteq> None \<longrightarrow>
      createProject e n (start f) =
        (Inl (Exit 1),
         \<lparr>files = f, trace = [Exists (resolve (cwd e) n) True,
                               Error (''Folder '' @ n @ '' already exists.'')]\<rparr>) \<and>
      (n \<noteq> [] \<longrightarrow>
         run e (n # rest) f =
           (1, \<lparr>files = f, trace = [Exists (resolve (cwd e) n) True,
                                     Error (''Folder '' @ n @ '' already exists.'')]\<rparr>))) \<and>
   (keeps e (resolve (cwd e) n) \<and> cwd e' = cwd e \<and>
    Mkdir (resolve (cwd e) n) None \<in> set (trace (snd (run e (n # rest) g))) \<longrightarrow>
      run e' (n # rest') (files (snd (run e (n # rest) g))) =
        (1, \<lparr>files = files (snd (run e (n # rest) g)),
             trace = [Exists (resolve (cwd e) n) True,
                      Error (''Folder '' @ n @ '' already exists.'')]\<rparr>))"
proof (intro conjI impI)
  assume "node_at f (resolve (cwd e) n) \<noteq> None"
  then show "createProject e n (start f) =
        (Inl (Exit 1),
         \<lparr>files = f, trace = [Exists (resolve (cwd e) n) True,
                               Error (''Folder '' @ n @ '' already exists.'')]\<rparr>)"
    by (simp add: createProject_exists start_def)
next
  assume "node_at f (resolve (cwd e) n) \<noteq> None" "n \<noteq> []"
  then show "run e (n # rest) f =
           (1, \<lparr>files = f, trace = [Exists (resolve (cwd e) n) True,
                                     Error (''Folder '' @ n @ '' already exists.'')]\<rparr>)"
    by (simp add: run_exists)
next
  assume a: "keeps e (resolve (cwd e) n) \<and> cwd e' = cwd e \<and>
    Mkdir (resolve (cwd e) n) None \<in> set (trace (snd (run e (n # rest) g)))"
  then have "n \<noteq> []"
    and "node_at (files (snd (run e (n # rest) g))) (resolve (cwd e') n) \<noteq> None"
    using created_target_stays[of e n rest g] by simp_all
  then show "run e' (n # rest') (files (snd (run e (n # rest) g))) =
        (1, \<lparr>files = files (snd (run e (n # rest) g)),
             trace = [Exists (resolve (cwd e) n) True,
                      Error (''Folder '' @ n @ '' already exists.'')]\<rparr>)"
    using run_exists[of n "files (snd (run e (n # rest) g))" e' rest'] a by simp
qed

theorem existing_target_is_refused_witness:
  "node_at (demo_fs([''home'', ''u'', ''demo''] \<mapsto> File [])) (resolve (cwd demo_env) ''demo'') \<noteq> None \<and>
   ''demo'' \<noteq> [] \<and>
   run demo_env [''demo''] (demo_fs([''home'', ''u'', ''demo''] \<mapsto> File [])) =
     (1, \<lparr>files = demo_fs([''home'', ''u'', ''demo''] \<mapsto> File []),
          trace = [Exists [''home'', ''u'', ''demo''] True,
                   Error ''Folder demo already exists.'']\<rparr>) \<and>
   keeps demo_env (resolve (cwd demo_env) ''demo'') \<and>
   cwd failing_env = cwd demo_env \<and>
   Mkdir [''home'', ''u'', ''demo''] None \<in> set (trace (snd (run demo_env [''demo''] demo_fs))) \<and>
   run failing_env [''demo''] (files (snd (run demo_env [''demo''] demo_fs))) =
     (1, \<lparr>files = scaffolded demo_fs [''home'', ''u'', ''demo''] ''demo'',
          trace = [Exists [''home'', ''u'', ''demo''] True,
                   Error ''Folder demo already exists.'']\<rparr>)"
proof -
  have h1: "node_at (demo_fs([''home'', ''u'', ''demo''] \<mapsto> File []))
              (resolve (cwd demo_env) ''demo'') \<noteq> None"
    by (simp add: demo_target node_at_def)
  have h2: "Mkdir [''home'', ''u'', ''demo''] None
              \<in> set (trace (snd (run demo_env [''demo''] demo_fs)))"
    by (simp add: demo_run emitted_def)
  have h3: "cwd failing_env = cwd demo_env"
    by (simp add: failing_env_def)
  have h4: "''demo'' \<noteq> []"
    by simp
  note t = existing_target_is_refused[where e = demo_env and e' = failing_env and n = "''demo''"
      and f = "demo_fs([''home'', ''u'', ''demo''] \<mapsto> File [])" and g = demo_fs
      and rest = "[]" and rest' = "[]"]
  have a: "run demo_env [''demo''] (demo_fs([''home'', ''u'', ''demo''] \<mapsto> File [])) =
     (1, \<lparr>files = demo_fs([''home'', ''u'', ''demo''] \<mapsto> File []),
          trace = [Exists [''home'', ''u'', ''demo''] True,
                   Error ''Folder demo already exists.'']\<rparr>)"
    using t h1 by (simp add: demo_target)
  have "run failing_env [''demo''] (files (snd (run demo_env [''demo''] demo_fs))) =
     (1, \<lparr>files = files (snd (run demo_env [''demo''] demo_fs)),
          trace = [Exists [''home'', ''u'', ''demo''] True,
                   Error ''Folder demo already exists.'']\<rparr>)"
    using t h2 h3 demo_keeps[of "[''home'', ''u'', ''demo'']"] by (simp add: demo_target)
  then have b: "run failing_env [''demo''] (files (snd (run demo_env [''demo''] demo_fs))) =
     (1, \<lparr>files = scaffolded demo_fs [''home'', ''u'', ''demo''] ''demo'',
          trace = [Exists [''home'', ''u'', ''demo''] True,
                   Error ''Folder demo already exists.'']\<rparr>)"
    by (simp add: demo_run)
  have k: "keeps demo_env (resolve (cwd demo_env) ''demo'')"
    by (rule demo_keeps)
  from h1 h4 a k h3 h2 b show ?thesis by (intro conjI)
qed

text \<open>
  C3. Invoked with no positional argument, the process prints the usage message on the
  error stream and exits with code 1. The usage message is the only event of the run: the
  script makes no call on the file system, not even the existence check, and starts no
  subprocess, and the file system is what it was.
\<close>

theorem no_argument_is_a_usage_error:
  "run e [] f =
     (1, \<lparr>files = f, trace = [Error ''Usage: npm create nodality <project-name>'']\<rparr>) \<and>
   fst (run e [] f) \<noteq> 0 \<and>
   files (snd (run e [] f)) = f \<and>
   calls (trace (snd (run e [] f))) = []"
  by (simp add: run_no_name calls_def List.map_filter_simps)

text \<open>
  C4. In every run that exits with code 0, the text written to \<^verbatim>\<open>package.json\<close> is
  \<^verbatim>\<open>JSON.stringify(pkg, null, 2)\<close>, and it parses as JSON to an object whose \<^verbatim>\<open>scripts\<close> are exactly \<^verbatim>\<open>build\<close>, \<^verbatim>\<open>watch\<close>,
  \<^verbatim>\<open>start\<close> and \<^verbatim>\<open>dev\<close>, whose \<^verbatim>\<open>dependencies\<close> hold exactly one entry
  (\<^verbatim>\<open>nodality\<close>, \<^verbatim>\<open>latest\<close>), and whose \<^verbatim>\<open>devDependencies\<close> hold the nine fixed
  entries, each with a version that starts with a caret.
\<close>

theorem manifest_of_a_successful_run:
  assumes "fst (run e args f) = 0"
  shows "\<exists>n txt j.
           first_arg args = Some n \<and>
           written (trace (snd (run e args f))) (resolve (cwd e) n @ [''package.json'']) = Some txt \<and>
           txt = JSON_stringify (pkg n) 2 \<and>
           JSON_parse txt = Some j \<and>
           map fst (object_at ''scripts'' j) = [''build'', ''watch'', ''start'', ''dev''] \<and>
           object_at ''dependencies'' j = [(''nodality'', JString ''latest'')] \<and>
           length (object_at ''dependencies'' j) = 1 \<and>
           map fst (object_at ''devDependencies'' j) =
             [''@babel/core'', ''@babel/preset-env'', ''babel-loader'', ''live-server'',
              ''npm-run-all'', ''serve'', ''webpack'', ''webpack-cli'', ''webpack-dev-server''] \<and>
           length (object_at ''devDependencies'' j) = 9 \<and>
           list_all caret_range (map snd (object_at ''devDependencies'' j))"
proof -
  obtain n where n: "first_arg args = Some n"
    and w: "written (trace (snd (run e args f))) (resolve (cwd e) n @ [''package.json'']) =
             Some (JSON_stringify (pkg n) 2)"
    using successful_run_written[OF assms] by blast
  have nine: "length (object_at ''devDependencies'' (pkg n)) = 9"
    using arg_cong[OF pkg_devDependencies[of n], of length] by simp
  show ?thesis
    using n w parse_stringify_pkg[of n] pkg_scripts[of n] pkg_dependencies[of n]
      pkg_devDependencies[of n] pkg_carets[of n] nine
    by (intro exI[of _ n] exI[of _ "JSON_stringify (pkg n) 2"] exI[of _ "pkg n"]) simp
qed

theorem manifest_of_a_successful_run_witness:
  "fst (run demo_env [''demo''] demo_fs) = 0 \<and>
   (\<exists>txt j.
      written (trace (snd (run demo_env [''demo''] demo_fs)))
        [''home'', ''u'', ''demo'', ''package.json''] = Some txt \<and>
      JSON_parse txt = Some j \<and>
      map fst (object_at ''scripts'' j) = [''build'', ''watch'', ''start'', ''dev''] \<and>
      length (object_at ''dependencies'' j) = 1 \<and>
      length (object_at ''devDependencies'' j) = 9 \<and>
      list_all caret_range (map snd (object_at ''devDependencies'' j)))"
proof -
  have z: "fst (run demo_env [''demo''] demo_fs) = 0"
    by (simp add: demo_run)
  obtain n body j where n: "first_arg [''demo''] = Some n"
    and w: "written (trace (snd (run demo_env [''demo''] demo_fs)))
              (resolve (cwd demo_env) n @ [''package.json'']) = Some body"
    and b: "body = JSON_stringify (pkg n) 2"
    and j: "JSON_parse body = Some j"
    and s: "map fst (object_at ''scripts'' j) = [''build'', ''watch'', ''start'', ''dev'']"
    and d: "length (object_at ''dependencies'' j) = 1"
    and v: "length (object_at ''devDependencies'' j) = 9"
    and c: "list_all caret_range (map snd (object_at ''devDependencies'' j))"
    using manifest_of_a_successful_run[OF z] by (elim exE conjE)
  have "n = ''demo''" using n by (simp add: first_arg_def)
  then have "written (trace (snd (run demo_env [''demo''] demo_fs)))
        [''home'', ''u'', ''demo'', ''package.json''] = Some body"
    using w by (simp add: demo_target)
  from this j s d v c have "\<exists>txt j.
      written (trace (snd (run demo_env [''demo''] demo_fs)))
        [''home'', ''u'', ''demo'', ''package.json''] = Some txt \<and>
      JSON_parse txt = Some j \<and>
      map fst (object_at ''scripts'' j) = [''build'', ''watch'', ''start'', ''dev''] \<and>
      length (object_at ''dependencies'' j) = 1 \<and>
      length (object_at ''devDependencies'' j) = 9 \<and>
      list_all caret_range (map snd (object_at ''devDependencies'' j))"
    by (intro exI[of _ body] exI[of _ j] conjI)
  with z show ?thesis by (rule conjI)
qed

text \<open>
  C5, as amended. The script does not write five files: it makes four \<^verbatim>\<open>writeFileSync\<close>
  calls, from three text templates and one manifest object (the counterexample below;
  the specification itself lists four artifacts under the word five). With the
  \<^verbatim>\<open>src\<close> directory, five entries are created below the project root.

  What holds: in every run the \<^verbatim>\<open>writeFileSync\<close> calls are an initial segment of the four
  writes \<^verbatim>\<open>index.html\<close>, \<^verbatim>\<open>src/app.js\<close>, \<^verbatim>\<open>webpack.config.js\<close>, \<^verbatim>\<open>package.json\<close>, in
  this order, so there are at most four; and a run that starts a subprocess has made
  exactly these four, each with success, at four distinct paths.
\<close>

theorem four_file_artifacts:
  "length (filter is_write (trace (snd (run e (n # rest) f)))) \<le> 4 \<and>
   prefix (filter is_write_call (calls (trace (snd (run e (n # rest) f)))))
     [CWrite (resolve (cwd e) n @ [''index.html'']) (trim (indexHtml n)),
      CWrite (resolve (cwd e) n @ [''src'', ''app.js'']) (trim appJs),
      CWrite (resolve (cwd e) n @ [''webpack.config.js'']) (trim webpackConfig),
      CWrite (resolve (cwd e) n @ [''package.json'']) (JSON_stringify (pkg n) 2)] \<and>
   (list_ex is_exec (trace (snd (run e (n # rest) f))) \<longrightarrow>
      filter is_write (trace (snd (run e (n # rest) f))) =
        [WriteFile (resolve (cwd e) n @ [''index.html'']) (trim (indexHtml n)) None,
         WriteFile (resolve (cwd e) n @ [''src'', ''app.js'']) (trim appJs) None,
         WriteFile (resolve (cwd e) n @ [''webpack.config.js'']) (trim webpackConfig) None,
         WriteFile (resolve (cwd e) n @ [''package.json'']) (JSON_stringify (pkg n) 2) None] \<and>
      distinct (map written_path (filter is_write (trace (snd (run e (n # rest) f))))))"
proof -
  let ?tr = "trace (snd (run e (n # rest) f))"
  let ?p = "resolve (cwd e) n"
  have "prefix (calls ?tr) (pipeline ?p n)"
    using run_calls[of e "n # rest" f] by (simp add: first_arg_def)
  then have p: "prefix (filter is_write_call (calls ?tr)) (filter is_write_call (pipeline ?p n))"
    by (rule filter_mono_prefix)
  then have "length (filter is_write ?tr) \<le> 4"
    using prefix_length_le[OF p] by (simp add: count_writes pipeline_writes)
  moreover have "list_ex is_exec ?tr \<Longrightarrow>
      filter is_write ?tr = filter is_write (emitted ?p n) \<and>
      distinct (map written_path (filter is_write ?tr))"
    using writes_before_exec[of e n rest f] by (simp add: writes_emitted written_path_def)
  ultimately show ?thesis
    using p by (simp add: pipeline_writes writes_emitted written_path_def)
qed

theorem four_file_artifacts_witness:
  "list_ex is_exec (trace (snd (run demo_env [''demo''] demo_fs))) \<and>
   length (filter is_write (trace (snd (run demo_env [''demo''] demo_fs)))) = 4 \<and>
   map written_path (filter is_write (trace (snd (run demo_env [''demo''] demo_fs)))) =
     [[''home'', ''u'', ''demo'', ''index.html''],
      [''home'', ''u'', ''demo'', ''src'', ''app.js''],
      [''home'', ''u'', ''demo'', ''webpack.config.js''],
      [''home'', ''u'', ''demo'', ''package.json'']]"
proof -
  have x: "list_ex is_exec (trace (snd (run demo_env [''demo''] demo_fs)))"
    by (simp add: demo_run build_failed_def install_failed_def is_exec_def)
  have "filter is_write (trace (snd (run demo_env [''demo''] demo_fs))) =
        [WriteFile ([''home'', ''u'', ''demo''] @ [''index.html'']) (trim (indexHtml ''demo'')) None,
         WriteFile ([''home'', ''u'', ''demo''] @ [''src'', ''app.js'']) (trim appJs) None,
         WriteFile ([''home'', ''u'', ''demo''] @ [''webpack.config.js'']) (trim webpackConfig) None,
         WriteFile ([''home'', ''u'', ''demo''] @ [''package.json'']) (JSON_stringify (pkg ''demo'') 2) None]"
    using four_file_artifacts[of demo_env "''demo''" "[]" demo_fs] x
    by (simp only: demo_target)
  then show ?thesis
    using x by (simp add: written_path_def)
qed

text \<open>
  The input at which C5 fails as written: the run for the name \<^verbatim>\<open>demo\<close> in the small
  world exits with code 0 and has written four files, not five.
\<close>

theorem five_artifacts_counterexample:
  "fst (run demo_env [''demo''] demo_fs) = 0 \<and>
   length (filter is_write (trace (snd (run demo_env [''demo''] demo_fs)))) = 4 \<and>
   length (filter is_write (trace (snd (run demo_env [''demo''] demo_fs)))) \<noteq> 5"
  by (simp add: demo_run writes_emitted writes_build_failed writes_report is_write_def)

text \<open>
  C6. If a subprocess of the run ends with a status other than \<open>Exited 0\<close>, the process
  exits with code 1; the failed command is the last event of the run, so nothing is
  retried, removed or reported after it, and it was run once; the creations of the run are
  the six successful ones of a complete emission; and the final file system is the one the
  failed subprocess left: the script removes nothing of what it wrote.
\<close>

theorem subprocess_failure_is_fatal:
  assumes "Exec cmd d st \<in> set (trace (snd (run e args f)))" and "st \<noteq> Exited 0"
  shows "fst (run e args f) = 1 \<and>
         last (trace (snd (run e args f))) = Exec cmd d st \<and>
         length (filter (runs cmd) (trace (snd (run e args f)))) = 1 \<and>
         (case args of
            [] \<Rightarrow> False
          | n # rest \<Rightarrow>
              d = resolve (cwd e) n \<and>
              filter is_creation (trace (snd (run e args f))) = emitted d n \<and>
              (let r1 = spawn e ''npm install'' d (scaffolded f d n);
                   r2 = spawn e ''npm run build'' d (snd r1)
               in cmd = ''npm install'' \<and> st = fst r1 \<and> files (snd (run e args f)) = snd r1 \<or>
                  cmd = ''npm run build'' \<and> fst r1 = Exited 0 \<and> st = fst r2 \<and>
                  files (snd (run e args f)) = snd r2))"
proof (cases rule: run_cases[of args e f])
  case usage
  then show ?thesis using assms by simp
next
  case (refused n rest)
  then show ?thesis using assms by auto
next
  case (emission_failed n rest f' tr)
  then show ?thesis using assms by (auto simp: list_ex_iff is_exec_def)
next
  case (install_fails n rest p r1)
  have "cmd = ''npm install'' \<and> d = p \<and> st = fst r1"
    using assms(1) by (simp add: install_fails(8) exec_emitted exec_install_failed)
  with install_fails show ?thesis
    by (simp add: last_install_failed install_failed_not_Nil runs_emitted runs_install_failed
        filter_emitted filter_install_failed Let_def runs_def is_creation_def)
next
  case (build_fails n rest p r1 r2)
  have "cmd = ''npm run build'' \<and> d = p \<and> st = fst r2"
    using assms by (auto simp add: build_fails(10) exec_emitted exec_build_failed)
  with build_fails show ?thesis
    by (simp add: last_build_failed build_failed_not_Nil runs_emitted runs_build_failed
        filter_emitted filter_build_failed Let_def runs_def is_creation_def)
next
  case (succeeded n rest p r1 r2)
  then show ?thesis
    using assms
    by (auto simp: exec_emitted exec_report exec_build_failed)
qed

theorem subprocess_failure_is_fatal_witness:
  "Exec ''npm install'' [''home'', ''u'', ''demo''] (Exited 1)
     \<in> set (trace (snd (run failing_env [''demo''] demo_fs))) \<and>
   Exited 1 \<noteq> Exited 0 \<and>
   fst (run failing_env [''demo''] demo_fs) = 1 \<and>
   last (trace (snd (run failing_env [''demo''] demo_fs))) =
     Exec ''npm install'' [''home'', ''u'', ''demo''] (Exited 1) \<and>
   length (filter (runs ''npm install'') (trace (snd (run failing_env [''demo''] demo_fs)))) = 1 \<and>
   filter is_creation (trace (snd (run failing_env [''demo''] demo_fs))) =
     emitted [''home'', ''u'', ''demo''] ''demo'' \<and>
   files (snd (run failing_env [''demo''] demo_fs)) =
     scaffolded demo_fs [''home'', ''u'', ''demo''] ''demo''"
proof -
  have m: "Exec ''npm install'' [''home'', ''u'', ''demo''] (Exited 1)
     \<in> set (trace (snd (run failing_env [''demo''] demo_fs)))"
    by (simp add: failing_run install_failed_def)
  have s: "Exited 1 \<noteq> Exited 0" by simp
  have "fst (run failing_env [''demo''] demo_fs) = 1 \<and>
        last (trace (snd (run failing_env [''demo''] demo_fs))) =
          Exec ''npm install'' [''home'', ''u'', ''demo''] (Exited 1) \<and>
        length (filter (runs ''npm install'') (trace (snd (run failing_env [''demo''] demo_fs)))) = 1"
    using subprocess_failure_is_fatal[OF m s] by blast
  moreover have "filter is_creation (trace (snd (run failing_env [''demo''] demo_fs))) =
     emitted [''home'', ''u'', ''demo''] ''demo''"
    by (simp add: failing_run filter_emitted filter_install_failed is_creation_def)
  moreover have "files (snd (run failing_env [''demo''] demo_fs)) =
     scaffolded demo_fs [''home'', ''u'', ''demo''] ''demo''"
    by (simp add: failing_run)
  ultimately show ?thesis using m s by blast
qed

text \<open>
  C7. In every run, the calls on the file system and the subprocess starts are an initial
  segment of one fixed sequence: the existence check on the target, the two
  \<^verbatim>\<open>mkdirSync\<close> calls, the four \<^verbatim>\<open>writeFileSync\<close> calls, \<^verbatim>\<open>npm install\<close>,
  \<^verbatim>\<open>npm run build\<close>. So the check precedes every write, every write precedes every
  subprocess, and the install precedes the build. A subprocess call is synchronous (its
  event carries its exit status), and the build is started only after the install has
  exited with status 0.
\<close>

theorem pipeline_order:
  "prefix (calls (trace (snd (run e args f))))
     (case first_arg args of None \<Rightarrow> [] | Some n \<Rightarrow> pipeline (resolve (cwd e) n) n) \<and>
   sorted (map stage (calls (trace (snd (run e args f))))) \<and>
   (Exec ''npm run build'' d st \<in> set (trace (snd (run e args f))) \<longrightarrow>
      Exec ''npm install'' d (Exited 0) \<in> set (trace (snd (run e args f))))"
proof (intro conjI impI)
  show p: "prefix (calls (trace (snd (run e args f))))
     (case first_arg args of None \<Rightarrow> [] | Some n \<Rightarrow> pipeline (resolve (cwd e) n) n)"
    by (rule run_calls)
  have "sorted (map stage (case first_arg args of None \<Rightarrow> [] | Some n \<Rightarrow> pipeline (resolve (cwd e) n) n))"
    by (simp add: sorted_pipeline split: option.splits)
  then show "sorted (map stage (calls (trace (snd (run e args f)))))"
    using p prefix_sorted map_mono_prefix by blast
next
  assume "Exec ''npm run build'' d st \<in> set (trace (snd (run e args f)))"
  then show "Exec ''npm install'' d (Exited 0) \<in> set (trace (snd (run e args f)))"
    by (rule build_after_install)
qed

theorem pipeline_order_witness:
  "calls (trace (snd (run demo_env [''demo''] demo_fs))) = pipeline [''home'', ''u'', ''demo''] ''demo'' \<and>
   map stage (calls (trace (snd (run demo_env [''demo''] demo_fs)))) = [0, 1, 1, 1, 1, 1, 1, 2, 3] \<and>
   Exec ''npm run build'' [''home'', ''u'', ''demo''] (Exited 0)
     \<in> set (trace (snd (run demo_env [''demo''] demo_fs))) \<and>
   Exec ''npm install'' [''home'', ''u'', ''demo''] (Exited 0)
     \<in> set (trace (snd (run demo_env [''demo''] demo_fs)))"
  using pipeline_order[of demo_env "[''demo'']" demo_fs "[''home'', ''u'', ''demo'']" "Exited 0"]
  by (simp add: demo_run calls_Cons calls_append calls_build_failed calls_report pipeline_split
      build_failed_def install_failed_def)
     (simp add: emitted_def calls_Cons calls_Nil)

text \<open>
  C8. The name in the manifest is the project name in every successful run, but the
  title element does not hold every name: the name is put between \<^verbatim>\<open><title>\<close> and
  \<^verbatim>\<open></title>\<close> without escaping, and an HTML parser ends the element at the first end tag
  it meets. For the name \<^verbatim>\<open>a</title>b\<close>, with a directory \<^verbatim>\<open>a<\<close> in the working directory,
  the run exits with code 0 and the title of the written document is \<^verbatim>\<open>a\<close> (the
  counterexample below).

  What holds: in every run that exits with code 0, for the project name \<open>n\<close> of the run,
  the text written to \<^verbatim>\<open>package.json\<close> parses as JSON to an object whose \<^verbatim>\<open>name\<close> is the
  string \<open>n\<close>; the text written to \<^verbatim>\<open>index.html\<close>, the trimmed template, has
  \<^verbatim>\<open><title>\<close>, then \<open>n\<close> as it is, then \<^verbatim>\<open></title>\<close>; and when no character of \<open>n\<close> is
  \<^verbatim>\<open><\<close>, \<^verbatim>\<open>&\<close>, a carriage return or NUL, the text of the title element of that document
  is \<open>n\<close>.
\<close>

theorem name_in_manifest_and_title:
  assumes "fst (run e args f) = 0"
  shows "\<exists>n txt j html before after.
           first_arg args = Some n \<and>
           written (trace (snd (run e args f))) (resolve (cwd e) n @ [''package.json'']) = Some txt \<and>
           txt = JSON_stringify (pkg n) 2 \<and>
           JSON_parse txt = Some j \<and>
           member ''name'' j = Some (JString n) \<and>
           written (trace (snd (run e args f))) (resolve (cwd e) n @ [''index.html'']) = Some html \<and>
           html = trim (indexHtml n) \<and>
           html = before @ ''<title>'' @ n @ ''</title>'' @ after \<and>
           (plain_text n \<longrightarrow> title_element html = Some n)"
proof -
  obtain n where n: "first_arg args = Some n"
    and w: "written (trace (snd (run e args f))) (resolve (cwd e) n @ [''package.json'']) =
             Some (JSON_stringify (pkg n) 2)"
    and h: "written (trace (snd (run e args f))) (resolve (cwd e) n @ [''index.html'']) =
             Some (trim (indexHtml n))"
    using successful_run_written[OF assms] by blast
  obtain before after
    where t: "trim (indexHtml n) = before @ ''<title>'' @ n @ ''</title>'' @ after"
    using title_in_index_html by blast
  have p: "plain_text n \<longrightarrow> title_element (trim (indexHtml n)) = Some n"
    using title_of_plain_name by blast
  from n w parse_stringify_pkg[of n] pkg_name[of n] h t p show ?thesis
    by (intro exI[of _ n] exI[of _ "JSON_stringify (pkg n) 2"] exI[of _ "pkg n"]
        exI[of _ "trim (indexHtml n)"] exI[of _ before] exI[of _ after] conjI)
       (rule refl | assumption)+
qed

theorem name_in_manifest_and_title_witness:
  "fst (run demo_env [''demo''] demo_fs) = 0 \<and>
   plain_text ''demo'' \<and>
   (\<exists>txt j html before after.
      written (trace (snd (run demo_env [''demo''] demo_fs)))
        [''home'', ''u'', ''demo'', ''package.json''] = Some txt \<and>
      JSON_parse txt = Some j \<and>
      member ''name'' j = Some (JString ''demo'') \<and>
      written (trace (snd (run demo_env [''demo''] demo_fs)))
        [''home'', ''u'', ''demo'', ''index.html''] = Some html \<and>
      html = before @ ''<title>'' @ ''demo'' @ ''</title>'' @ after \<and>
      title_element html = Some ''demo'')"
proof -
  have z: "fst (run demo_env [''demo''] demo_fs) = 0"
    by (simp add: demo_run)
  have q: "plain_text ''demo''"
    by (simp add: plain_text_def replaced_def)
  obtain n body j html before after where n: "first_arg [''demo''] = Some n"
    and w: "written (trace (snd (run demo_env [''demo''] demo_fs)))
              (resolve (cwd demo_env) n @ [''package.json'']) = Some body"
    and b: "body = JSON_stringify (pkg n) 2"
    and j: "JSON_parse body = Some j"
    and m: "member ''name'' j = Some (JString n)"
    and h: "written (trace (snd (run demo_env [''demo''] demo_fs)))
              (resolve (cwd demo_env) n @ [''index.html'']) = Some html"
    and i: "html = trim (indexHtml n)"
    and t: "html = before @ ''<title>'' @ n @ ''</title>'' @ after"
    and e: "plain_text n \<longrightarrow> title_element html = Some n"
    using name_in_manifest_and_title[OF z] by (elim exE conjE)
  have d: "n = ''demo''" using n by (simp add: first_arg_def)
  have w': "written (trace (snd (run demo_env [''demo''] demo_fs)))
        [''home'', ''u'', ''demo'', ''package.json''] = Some body"
    using w by (simp add: d demo_target)
  have h': "written (trace (snd (run demo_env [''demo''] demo_fs)))
        [''home'', ''u'', ''demo'', ''index.html''] = Some html"
    using h by (simp add: d demo_target)
  have e': "title_element html = Some ''demo''"
    using e q unfolding d by (rule mp)
  from w' j m[unfolded d] h' t[unfolded d] e' have "\<exists>txt j html before after.
      written (trace (snd (run demo_env [''demo''] demo_fs)))
        [''home'', ''u'', ''demo'', ''package.json''] = Some txt \<and>
      JSON_parse txt = Some j \<and>
      member ''name'' j = Some (JString ''demo'') \<and>
      written (trace (snd (run demo_env [''demo''] demo_fs)))
        [''home'', ''u'', ''demo'', ''index.html''] = Some html \<and>
      html = before @ ''<title>'' @ ''demo'' @ ''</title>'' @ after \<and>
      title_element html = Some ''demo''"
    by (intro exI[of _ body] exI[of _ j] exI[of _ html] exI[of _ before] exI[of _ after] conjI)
  with z q show ?thesis by (intro conjI)
qed

theorem end_tag_in_name_counterexample:
  "fst (run demo_env [''a</title>b''] nested_fs) = 0 \<and>
   written (trace (snd (run demo_env [''a</title>b''] nested_fs)))
     [''home'', ''u'', ''a<'', ''title>b'', ''index.html''] =
     Some (trim (indexHtml ''a</title>b'')) \<and>
   title_element (trim (indexHtml ''a</title>b'')) = Some ''a'' \<and>
   \<not> sublist ''a</title>b'' ''a''"
proof -
  obtain n where n: "first_arg [''a</title>b''] = Some n"
    and h: "written (trace (snd (run demo_env [''a</title>b''] nested_fs)))
              (resolve (cwd demo_env) n @ [''index.html'']) = Some (trim (indexHtml n))"
    using successful_run_written[OF nested_run] by blast
  have d: "n = ''a</title>b''" using n by (simp add: first_arg_def)
  have w: "written (trace (snd (run demo_env [''a</title>b''] nested_fs)))
     [''home'', ''u'', ''a<'', ''title>b'', ''index.html''] =
     Some (trim (indexHtml ''a</title>b''))"
    using h unfolding d nested_target by simp
  have s: "\<not> sublist ''a</title>b'' ''a''"
    by (simp add: sublist_Cons_right)
  from nested_run w nested_title s show ?thesis by (intro conjI)
qed

text \<open>
  C9. Take any two runs, with any two names, environments and file systems. Whatever the
  one writes to \<^verbatim>\<open>src/app.js\<close> below its target, the other writes to \<^verbatim>\<open>src/app.js\<close>
  below its own, and likewise for \<^verbatim>\<open>webpack.config.js\<close>: the data are the two constants
  \<open>trim appJs\<close> and \<open>trim webpackConfig\<close>, in which the name does not occur.
\<close>

theorem stub_and_config_do_not_depend_on_the_name:
  assumes "WriteFile q1 d1 s1 \<in> set (trace (snd (run e1 (n1 # rest1) f1)))"
    and "WriteFile q2 d2 s2 \<in> set (trace (snd (run e2 (n2 # rest2) f2)))"
    and "q1 = resolve (cwd e1) n1 @ rel"
    and "q2 = resolve (cwd e2) n2 @ rel"
    and "rel = [''src'', ''app.js''] \<or> rel = [''webpack.config.js'']"
  shows "d1 = d2 \<and>
         d1 = (if rel = [''src'', ''app.js''] then trim appJs else trim webpackConfig)"
  using written_file[OF write_in_pipeline[OF assms(1), unfolded assms(3)]]
    written_file[OF write_in_pipeline[OF assms(2), unfolded assms(4)]] assms(5)
  by auto

theorem stub_and_config_do_not_depend_on_the_name_witness:
  "WriteFile [''home'', ''u'', ''demo'', ''src'', ''app.js''] (trim appJs) None
     \<in> set (trace (snd (run demo_env [''demo''] demo_fs))) \<and>
   WriteFile [''home'', ''u'', ''other'', ''src'', ''app.js''] (trim appJs) None
     \<in> set (trace (snd (run demo_env [''other''] demo_fs))) \<and>
   [''home'', ''u'', ''demo'', ''src'', ''app.js''] =
     resolve (cwd demo_env) ''demo'' @ [''src'', ''app.js''] \<and>
   [''home'', ''u'', ''other'', ''src'', ''app.js''] =
     resolve (cwd demo_env) ''other'' @ [''src'', ''app.js''] \<and>
   trim appJs = (if [''src'', ''app.js''] = [''src'', ''app.js''] then trim appJs else trim webpackConfig)"
proof -
  have a: "[''home'', ''u'', ''demo'', ''src'', ''app.js''] =
     resolve (cwd demo_env) ''demo'' @ [''src'', ''app.js'']"
    by (simp add: demo_target)
  have b: "[''home'', ''u'', ''other'', ''src'', ''app.js''] =
     resolve (cwd demo_env) ''other'' @ [''src'', ''app.js'']"
    by (simp add: other_target)
  have c: "[''src'', ''app.js''] = [''src'', ''app.js''] \<or> [''src'', ''app.js''] = [''webpack.config.js'']"
    by simp
  show ?thesis
    using stub_and_config_do_not_depend_on_the_name[OF demo_run_writes other_run_writes a b c]
      demo_run_writes other_run_writes a b
    by (intro conjI) (assumption | simp)+
qed

text \<open>
  C10. Take any two runs with the same name, in any two environments (working directory,
  faults, subprocesses) and on any two file systems. The data they write at the same
  path relative to their targets are equal; and when both runs reach the subprocesses,
  the lists of the data they wrote are equal. The model has no clock and no source of
  randomness because the script reads none.
\<close>

theorem emitted_contents_depend_on_the_name_alone:
  "(WriteFile q1 d1 s1 \<in> set (trace (snd (run e1 (n # rest1) f1))) \<and>
    WriteFile q2 d2 s2 \<in> set (trace (snd (run e2 (n # rest2) f2))) \<and>
    q1 = resolve (cwd e1) n @ rel \<and> q2 = resolve (cwd e2) n @ rel \<longrightarrow> d1 = d2) \<and>
   (list_ex is_exec (trace (snd (run e1 (n # rest1) f1))) \<and>
    list_ex is_exec (trace (snd (run e2 (n # rest2) f2))) \<longrightarrow>
      map written_data (filter is_write (trace (snd (run e1 (n # rest1) f1)))) =
      map written_data (filter is_write (trace (snd (run e2 (n # rest2) f2)))))"
proof (intro conjI impI)
  assume a: "WriteFile q1 d1 s1 \<in> set (trace (snd (run e1 (n # rest1) f1))) \<and>
    WriteFile q2 d2 s2 \<in> set (trace (snd (run e2 (n # rest2) f2))) \<and>
    q1 = resolve (cwd e1) n @ rel \<and> q2 = resolve (cwd e2) n @ rel"
  then have "CWrite (resolve (cwd e1) n @ rel) d1 \<in> set (pipeline (resolve (cwd e1) n) n)"
    and "CWrite (resolve (cwd e2) n @ rel) d2 \<in> set (pipeline (resolve (cwd e2) n) n)"
    using write_in_pipeline by blast+
  then show "d1 = d2"
    using written_file[of "resolve (cwd e1) n" rel d1 n] written_file[of "resolve (cwd e2) n" rel d2 n]
    by auto
next
  assume "list_ex is_exec (trace (snd (run e1 (n # rest1) f1))) \<and>
    list_ex is_exec (trace (snd (run e2 (n # rest2) f2)))"
  then show "map written_data (filter is_write (trace (snd (run e1 (n # rest1) f1)))) =
      map written_data (filter is_write (trace (snd (run e2 (n # rest2) f2))))"
    by (simp add: writes_depend_on_name)
qed

theorem emitted_contents_depend_on_the_name_alone_witness:
  "WriteFile [''home'', ''u'', ''demo'', ''package.json''] (JSON_stringify (pkg ''demo'') 2) None
     \<in> set (trace (snd (run demo_env [''demo''] demo_fs))) \<and>
   WriteFile [''home'', ''u'', ''demo'', ''package.json''] (JSON_stringify (pkg ''demo'') 2) None
     \<in> set (trace (snd (run failing_env [''demo''] demo_fs))) \<and>
   [''home'', ''u'', ''demo'', ''package.json''] = resolve (cwd demo_env) ''demo'' @ [''package.json''] \<and>
   [''home'', ''u'', ''demo'', ''package.json''] = resolve (cwd failing_env) ''demo'' @ [''package.json''] \<and>
   list_ex is_exec (trace (snd (run demo_env [''demo''] demo_fs))) \<and>
   list_ex is_exec (trace (snd (run failing_env [''demo''] demo_fs))) \<and>
   fst (run demo_env [''demo''] demo_fs) \<noteq> fst (run failing_env [''demo''] demo_fs) \<and>
   map written_data (filter is_write (trace (snd (run demo_env [''demo''] demo_fs)))) =
   map written_data (filter is_write (trace (snd (run failing_env [''demo''] demo_fs))))"
proof -
  have p: "[''home'', ''u'', ''demo'', ''package.json''] =
             resolve (cwd demo_env) ''demo'' @ [''package.json'']"
    by (simp add: demo_target)
  have q: "[''home'', ''u'', ''demo'', ''package.json''] =
             resolve (cwd failing_env) ''demo'' @ [''package.json'']"
    using demo_target by (simp add: failing_env_def)
  have x: "list_ex is_exec (trace (snd (run demo_env [''demo''] demo_fs)))"
    by (simp add: demo_run build_failed_def install_failed_def is_exec_def)
  have y: "list_ex is_exec (trace (snd (run failing_env [''demo''] demo_fs)))"
    by (simp add: failing_run install_failed_def is_exec_def)
  have c: "fst (run demo_env [''demo''] demo_fs) \<noteq> fst (run failing_env [''demo''] demo_fs)"
    by (simp add: demo_run failing_run)
  have "map written_data (filter is_write (trace (snd (run demo_env [''demo''] demo_fs)))) =
        map written_data (filter is_write (trace (snd (run failing_env [''demo''] demo_fs))))"
    using emitted_contents_depend_on_the_name_alone[of _ _ _ demo_env "''demo''" "[]" demo_fs
        _ _ _ failing_env "[]" demo_fs] x y
    by blast
  then show ?thesis
    using demo_run_manifest failing_run_manifest p q x y c by (intro conjI)
qed

end
